theory Spec2Isabelle
  imports Complex_Main
begin

section \<open>The text-input editor (class CaptureKeyboardInput of dbv/tui.py)\<close>

text \<open>
  The control characters of \<^verbatim>\<open>dbv/tui.py\<close>. Every keyboard event is one character
  (\<^verbatim>\<open>ch\<close> "will always have length 1"), so a key is a \<^typ>\<open>char\<close>.
\<close>

definition ESCAPE_KEY :: char where
  "ESCAPE_KEY = CHR 0x1B"

definition CTRL_H :: char where
  "CTRL_H = CHR 0x08"

definition BACKSPACE :: char where
  "BACKSPACE = CHR 0x7F"

definition CTRL_K :: char where
  "CTRL_K = CHR 0x0B"

definition NEWLINE :: char where
  "NEWLINE = CHR 0x0A"

definition CARRIAGE_RETURN :: char where
  "CARRIAGE_RETURN = CHR 0x0D"

text \<open>Python's \<^verbatim>\<open>s.endswith(t)\<close> and \<^verbatim>\<open>s.rstrip(chars)\<close>.\<close>

definition endswith :: "string \<Rightarrow> string \<Rightarrow> bool" where
  "endswith s t = (length t \<le> length s \<and> drop (length s - length t) s = t)"

definition rstrip :: "string \<Rightarrow> string \<Rightarrow> string" where
  "rstrip chars s = rev (dropWhile (\<lambda>c. c \<in> set chars) (rev s))"

text \<open>
  The dataclass has the data fields \<^verbatim>\<open>prompt\<close>, \<^verbatim>\<open>value\<close>, \<^verbatim>\<open>editing\<close> and the two
  callbacks \<^verbatim>\<open>update\<close> and \<^verbatim>\<open>finalize\<close>. A callback receives the editor and may assign
  its data fields, so it is a function on the data fields that returns them updated.
  The field \<open>calls\<close> is the log of the callbacks invoked on the editor, in order: it
  is what "invoked exactly once" is stated about.
\<close>

datatype callback = Update_called | Finalize_called

record cap_fields =
  prompt :: "string option"
  cap_value :: string
  cap_editing :: bool

record CaptureKeyboardInput = cap_fields +
  update :: "cap_fields \<Rightarrow> string \<Rightarrow> cap_fields \<times> bool"
  finalize :: "cap_fields \<Rightarrow> cap_fields"
  calls :: "callback list"

definition get_fields :: "CaptureKeyboardInput \<Rightarrow> cap_fields" where
  "get_fields ed =
     \<lparr>prompt = prompt ed, cap_value = cap_value ed, cap_editing = cap_editing ed\<rparr>"

definition set_fields :: "cap_fields \<Rightarrow> CaptureKeyboardInput \<Rightarrow> CaptureKeyboardInput" where
  "set_fields c ed =
     ed\<lparr>prompt := prompt c, cap_value := cap_value c, cap_editing := cap_editing c\<rparr>"

text \<open>
  \<^verbatim>\<open>send_character\<close>: backspace and ctrl-h drop the last character (\<^verbatim>\<open>value[:-1]\<close>,
  which is the empty string for an empty value), ctrl-k empties the value, any other
  character is appended; then the update callback is called with the editor and the
  new value, and its result is returned.
\<close>

definition send_character :: "char \<Rightarrow> CaptureKeyboardInput \<Rightarrow> CaptureKeyboardInput \<times> bool" where
  "send_character ch ed =
     (let v = (if ch = BACKSPACE \<or> ch = CTRL_H then butlast (cap_value ed)
               else if ch = CTRL_K then []
               else cap_value ed @ [ch]);
          ed1 = ed\<lparr>cap_value := v\<rparr>;
          r = update ed1 (get_fields ed1) v
      in (set_fields (fst r) (ed1\<lparr>calls := calls ed1 @ [Update_called]\<rparr>), snd r))"

text \<open>\<^verbatim>\<open>exit_on_return(cap, s)\<close>, the update callback of the filter prompt.\<close>

definition exit_on_return :: "cap_fields \<Rightarrow> string \<Rightarrow> cap_fields \<times> bool" where
  "exit_on_return cap s =
     (if endswith s [NEWLINE]
      then (cap\<lparr>cap_value := rstrip [CARRIAGE_RETURN, NEWLINE] (cap_value cap)\<rparr>, False)
      else (cap, True))"

text \<open>The defaults of the dataclass fields.\<close>

definition default_update :: "cap_fields \<Rightarrow> string \<Rightarrow> cap_fields \<times> bool" where
  "default_update cap s = (cap, True)"

definition default_finalize :: "cap_fields \<Rightarrow> cap_fields" where
  "default_finalize cap = cap"

section \<open>The data source\<close>

text \<open>
  The table is a dask DataFrame, a library type. It is modelled by its ordered columns
  (name and cell values) and its row labels; \<open>'c\<close> is the type of a cell. A frame read
  from a file is rectangular (\<open>wf_df\<close>).
\<close>

record 'c series =
  sname :: string
  sindex :: "int list"
  svalues :: "'c list"

record 'c dataframe =
  dindex :: "int list"
  dcols :: "(string \<times> 'c list) list"

definition wf_df :: "'c dataframe \<Rightarrow> bool" where
  "wf_df d = list_all (\<lambda>c. length (snd c) = length (dindex d)) (dcols d)"

text \<open>Modelled from the spec: the DataSource capability \<^verbatim>\<open>columns()\<close> (\<^verbatim>\<open>df.columns\<close>).\<close>

definition columns :: "'c dataframe \<Rightarrow> string list" where
  "columns d = map fst (dcols d)"

text \<open>Modelled from the spec: the DataSource capability \<^verbatim>\<open>rowCount()\<close> (\<^verbatim>\<open>len(df)\<close>).\<close>

definition len :: "'c dataframe \<Rightarrow> int" where
  "len d = int (length (dindex d))"

section \<open>The table view (class TableView)\<close>

text \<open>
  The fields \<^verbatim>\<open>df\<close>, \<^verbatim>\<open>_last_page_size\<close>, \<^verbatim>\<open>_startat\<close>, \<^verbatim>\<open>_column_startat\<close> and
  \<^verbatim>\<open>_filter\<close>; Python's integers are unbounded, so they are \<^typ>\<open>int\<close>.
\<close>

record 'c TableView =
  tv_df :: "'c dataframe"
  tv_last_page_size :: int
  tv_startat :: int
  tv_column_startat :: int
  tv_filter :: CaptureKeyboardInput

definition TableView_init :: "'c dataframe \<Rightarrow> 'c TableView" where
  "TableView_init d =
     \<lparr>tv_df = d, tv_last_page_size = 0, tv_startat = 0, tv_column_startat = 0,
      tv_filter = \<lparr>prompt = Some ''filter: '', cap_value = [], cap_editing = False,
                   update = exit_on_return, finalize = default_finalize, calls = []\<rparr>\<rparr>"

definition startat :: "'c TableView \<Rightarrow> int" where
  "startat tv = tv_startat tv"

definition startat_setter :: "int \<Rightarrow> 'c TableView \<Rightarrow> 'c TableView" where
  "startat_setter v tv = tv\<lparr>tv_startat := min (len (tv_df tv) - 1) (max 0 v)\<rparr>"

definition column_startat :: "'c TableView \<Rightarrow> int" where
  "column_startat tv = tv_column_startat tv"

definition column_startat_setter :: "int \<Rightarrow> 'c TableView \<Rightarrow> 'c TableView" where
  "column_startat_setter v tv =
     tv\<lparr>tv_column_startat := min (int (length (columns (tv_df tv))) - 1) (max 0 v)\<rparr>"

definition increment_page :: "'c TableView \<Rightarrow> 'c TableView" where
  "increment_page tv = startat_setter (startat tv + tv_last_page_size tv) tv"

definition decrement_page :: "'c TableView \<Rightarrow> 'c TableView" where
  "decrement_page tv = startat_setter (startat tv - tv_last_page_size tv) tv"

text \<open>The setter leaves a requested offset as it is when the clamp has no effect on it.\<close>

definition unclamped :: "int \<Rightarrow> 'c TableView \<Rightarrow> bool" where
  "unclamped v tv = (startat (startat_setter v tv) = v)"

section \<open>Python built-ins used by the view\<close>

text \<open>
  The exceptions the code can meet; all of them are subclasses of \<^verbatim>\<open>Exception\<close>, so
  \<^verbatim>\<open>except Exception\<close> catches each.
\<close>

datatype exn = AttributeError | KeyError | NameError | SyntaxError | TypeError | ValueError

text \<open>
  \<^verbatim>\<open>str.strip()\<close> removes the white space at both ends. A character is a code point
  below 256; these are the ones for which \<^verbatim>\<open>str.isspace\<close> holds.
\<close>

definition py_isspace :: "char \<Rightarrow> bool" where
  "py_isspace c = (c \<in> set [CHR 0x09, CHR 0x0A, CHR 0x0B, CHR 0x0C, CHR 0x0D, CHR 0x1C,
                             CHR 0x1D, CHR 0x1E, CHR 0x1F, CHR 0x20, CHR 0x85, CHR 0xA0])"

definition strip :: "string \<Rightarrow> string" where
  "strip s = rev (dropWhile py_isspace (rev (dropWhile py_isspace s)))"

text \<open>\<^verbatim>\<open>t in s\<close> on strings, which is \<^verbatim>\<open>str.contains(t, regex=False)\<close> on one cell.\<close>

fun str_contains :: "string \<Rightarrow> string \<Rightarrow> bool" where
  "str_contains [] t = (t = [])"
| "str_contains (c # cs) t = (take (length t) (c # cs) = t \<or> str_contains cs t)"

text \<open>\<^verbatim>\<open>functools.reduce(f, xs)\<close> with no initial value: a TypeError on the empty list.\<close>

definition reduce :: "('a \<Rightarrow> 'a \<Rightarrow> 'a) \<Rightarrow> 'a list \<Rightarrow> exn + 'a" where
  "reduce f xs = (case xs of [] \<Rightarrow> Inl TypeError | x # r \<Rightarrow> Inr (foldl f x r))"

text \<open>
  \<^verbatim>\<open>itertools.islice(it, start, stop)\<close>: a negative \<^verbatim>\<open>start\<close> or \<^verbatim>\<open>stop\<close> is a
  ValueError; otherwise the items at the positions from \<^verbatim>\<open>start\<close> up to \<^verbatim>\<open>stop\<close>.
\<close>

definition islice :: "'a list \<Rightarrow> int \<Rightarrow> int \<Rightarrow> exn + 'a list" where
  "islice xs start stop =
     (if start < 0 \<or> stop < 0 then Inl ValueError
      else Inr (take (nat (stop - start)) (drop (nat start) xs)))"

text \<open>\<^verbatim>\<open>xs[k:]\<close>: a negative \<^verbatim>\<open>k\<close> counts from the end.\<close>

definition slice_from :: "int \<Rightarrow> 'a list \<Rightarrow> 'a list" where
  "slice_from k xs =
     (if k < 0 then drop (nat (max 0 (int (length xs) + k))) xs else drop (nat k) xs)"

text \<open>
  \<^verbatim>\<open>zip(*rows)\<close>: the columns of a list of rows, as many as the shortest row has
  cells, and none at all when there is no row.
\<close>

definition zip_star :: "'a list list \<Rightarrow> 'a list list" where
  "zip_star rs =
     (case rs of [] \<Rightarrow> []
      | r # rest \<Rightarrow> map (\<lambda>i. map (\<lambda>row. row ! i) rs)
                       [0..<foldr (\<lambda>row m. min (length row) m) rest (length r)])"

text \<open>\<^verbatim>\<open>np.add.accumulate\<close>: the running sums.\<close>

fun accumulate_from :: "int \<Rightarrow> int list \<Rightarrow> int list" where
  "accumulate_from s [] = []"
| "accumulate_from s (x # xs) = (s + x) # accumulate_from (s + x) xs"

definition accumulate :: "int list \<Rightarrow> int list" where
  "accumulate xs = accumulate_from 0 xs"

section \<open>Operations of the data source\<close>

text \<open>
  Modelled from the spec: the DataSource capability \<^verbatim>\<open>column(name)\<close>, which the code
  reaches as \<^verbatim>\<open>getattr(df, name)\<close> for a name in \<^verbatim>\<open>df.columns\<close>.
\<close>

definition column :: "'c dataframe \<Rightarrow> string \<Rightarrow> 'c series" where
  "column d name =
     \<lparr>sname = name, sindex = dindex d,
      svalues = (case map_of (dcols d) name of Some vs \<Rightarrow> vs | None \<Rightarrow> [])\<rparr>"

text \<open>
  Modelled from the spec: the DataSource capability \<^verbatim>\<open>selectRows(predicate)\<close>, which the
  code reaches as \<^verbatim>\<open>df[mask]\<close> for a boolean column: the rows at the positions where the
  mask holds, in their order.
\<close>

definition pick :: "bool list \<Rightarrow> 'a list \<Rightarrow> 'a list" where
  "pick m xs = map snd (filter fst (zip m xs))"

definition select_rows :: "'c dataframe \<Rightarrow> bool series \<Rightarrow> 'c dataframe" where
  "select_rows d m =
     \<lparr>dindex = pick (svalues m) (dindex d),
      dcols = map (\<lambda>c. (fst c, pick (svalues m) (snd c))) (dcols d)\<rparr>"

text \<open>
  Modelled from the spec: the DataSource capability \<^verbatim>\<open>selectColumns(range)\<close>, which the
  code reaches as \<^verbatim>\<open>df.iloc[:, k:]\<close>.
\<close>

definition iloc_columns_from :: "int \<Rightarrow> 'c dataframe \<Rightarrow> 'c dataframe" where
  "iloc_columns_from k d = d\<lparr>dcols := slice_from k (dcols d)\<rparr>"

text \<open>
  Modelled from the spec: the DataSource capability \<^verbatim>\<open>iterRows\<close>, which the code reaches
  as \<^verbatim>\<open>df.itertuples()\<close>: one tuple for each row, the row label first and then the cell
  of each column.
\<close>

datatype 'c tup = Idx int | Val 'c

definition itertuples :: "'c dataframe \<Rightarrow> 'c tup list list" where
  "itertuples d =
     map (\<lambda>i. Idx (dindex d ! i) # map (\<lambda>c. Val (snd c ! i)) (dcols d))
       [0..<length (dindex d)]"

text \<open>
  Modelled from the spec: "wrap it into a one-column view", which the code reaches as
  \<^verbatim>\<open>Series.to_frame()\<close>: the frame with the row labels of the column value and the
  column value as its only column.
\<close>

definition to_frame :: "'c series \<Rightarrow> 'c dataframe" where
  "to_frame s = \<lparr>dindex = sindex s, dcols = [(sname s, svalues s)]\<rparr>"

text \<open>
  A dask frame is lazy: an operation on it builds a frame without computing its rows,
  and the rows are computed when they are iterated or counted. The computation of a
  derived frame may fail, and the exception is raised then, where the rows are asked for.
  A derived frame is either computed, or it has its columns and the exception that its
  computation raises.
\<close>

datatype 'c lazy = Computed "'c dataframe" | Failing "string list" exn

definition lazy_columns :: "'c lazy \<Rightarrow> string list" where
  "lazy_columns f = (case f of Computed d \<Rightarrow> columns d | Failing cols e \<Rightarrow> cols)"

definition lazy_iloc_columns_from :: "int \<Rightarrow> 'c lazy \<Rightarrow> 'c lazy" where
  "lazy_iloc_columns_from k f =
     (case f of
        Computed d \<Rightarrow> Computed (iloc_columns_from k d)
      | Failing cols e \<Rightarrow> Failing (slice_from k cols) e)"

text \<open>
  \<^verbatim>\<open>list(itertools.islice(filtered.itertuples(), start, stop))\<close>. \<^verbatim>\<open>islice\<close> checks its
  arguments first. \<^verbatim>\<open>itertuples\<close> is a generator: the rows are computed when
  \<^verbatim>\<open>islice\<close> asks for the first item, which it does to skip \<^verbatim>\<open>start\<close> items or to
  yield one.
\<close>

definition lazy_page :: "'c lazy \<Rightarrow> int \<Rightarrow> int \<Rightarrow> exn + 'c tup list list" where
  "lazy_page f start stop =
     (case f of
        Computed d \<Rightarrow> islice (itertuples d) start stop
      | Failing cols e \<Rightarrow>
          (case islice ([] :: 'c tup list list) start stop of
             Inl v \<Rightarrow> Inl v
           | Inr none \<Rightarrow> (if 0 < start \<or> 0 < stop then Inl e else Inr [])))"

text \<open>\<^verbatim>\<open>len(filtered)\<close> computes the rows.\<close>

definition lazy_len :: "'c lazy \<Rightarrow> exn + int" where
  "lazy_len f = (case f of Computed d \<Rightarrow> Inr (len d) | Failing cols e \<Rightarrow> Inl e)"

text \<open>
  Modelled from the spec: "stringify each row's value and test case-sensitive substring
  containment", which the code reaches as \<^verbatim>\<open>series.map(str).str.contains(t, regex=False)\<close>,
  and the "logical OR across columns", which it reaches as \<^verbatim>\<open>a | b\<close> on two boolean
  columns of the same frame.
\<close>

definition contains_mask :: "('c \<Rightarrow> string) \<Rightarrow> string \<Rightarrow> 'c series \<Rightarrow> bool series" where
  "contains_mask str t s =
     \<lparr>sname = sname s, sindex = sindex s,
      svalues = map (\<lambda>v. str_contains (str v) t) (svalues s)\<rparr>"

definition series_or :: "bool series \<Rightarrow> bool series \<Rightarrow> bool series" where
  "series_or a b =
     \<lparr>sname = sname a, sindex = sindex a,
      svalues = map (\<lambda>p. fst p \<or> snd p) (zip (svalues a) (svalues b))\<rparr>"

section \<open>The filter compiler\<close>

text \<open>
  What \<^verbatim>\<open>eval\<close> can yield: a boolean column (a mask), a column label, a column value
  that is not boolean, or any other object. What indexing the frame, and so the compiled
  filter, can yield: a frame, a column value, or any other object.
\<close>

datatype 'c evaluated = Mask "bool series" | Label string | ColumnValue "'c series" | OtherValue

datatype 'c filtered = Frame "'c lazy" | Column "'c series" | Object

text \<open>
  Python's \<^verbatim>\<open>eval\<close>, \<^verbatim>\<open>str\<close>, the width measurement of the rendering surface, the
  indexing of a frame by a key that is neither a mask nor a label, and the attributes
  that the frame object has itself (its methods and properties, such as \<^verbatim>\<open>count\<close>,
  \<^verbatim>\<open>size\<close> or \<^verbatim>\<open>index\<close>), are not code of this repository: they are parameters of the
  model.
\<close>

record 'c externals =
  py_eval :: "string \<Rightarrow> 'c dataframe \<Rightarrow> exn + 'c evaluated"
  py_str :: "'c \<Rightarrow> string"
  index_other :: "'c dataframe \<Rightarrow> 'c evaluated \<Rightarrow> exn + 'c filtered"
  own_attr :: "'c dataframe \<Rightarrow> string \<Rightarrow> 'c filtered option"
  measure_column :: "string \<times> 'c tup list \<Rightarrow> int"

text \<open>
  \<^verbatim>\<open>getattr(df, name)\<close>: Python looks the name up among the attributes of the object
  itself first; only when there is none of that name, the \<^verbatim>\<open>__getattr__\<close> of the frame
  answers with the column of that name, and with an AttributeError when there is no such
  column. A column named like a method of the frame is not reached this way.
\<close>

definition getattr :: "'c externals \<Rightarrow> 'c dataframe \<Rightarrow> string \<Rightarrow> exn + 'c filtered" where
  "getattr ext d name =
     (case own_attr ext d name of
        Some v \<Rightarrow> Inr v
      | None \<Rightarrow> (if name \<in> set (columns d) then Inr (Column (column d name))
                 else Inl AttributeError))"

text \<open>
  \<^verbatim>\<open>df[key]\<close>: a mask selects rows, a label selects that column (a KeyError when there
  is no such column).
\<close>

definition getitem :: "'c externals \<Rightarrow> 'c dataframe \<Rightarrow> 'c evaluated \<Rightarrow> exn + 'c filtered" where
  "getitem ext d k =
     (case k of
        Mask m \<Rightarrow> Inr (Frame (Computed (select_rows d m)))
      | Label l \<Rightarrow> (if l \<in> set (columns d) then Inr (Column (column d l)) else Inl KeyError)
      | _ \<Rightarrow> index_other ext d k)"

text \<open>
  \<^verbatim>\<open>compile_filter(filter_string)(df)\<close>. The filter string is \<^verbatim>\<open>None\<close> when the view
  has no filter, and \<^verbatim>\<open>None.strip()\<close> is an AttributeError.
\<close>

definition compile_filter :: "'c externals \<Rightarrow> string option \<Rightarrow> 'c dataframe \<Rightarrow> exn + 'c filtered" where
  "compile_filter ext filter_string d =
     (case filter_string of
        None \<Rightarrow> Inl AttributeError
      | Some s \<Rightarrow>
          if strip s \<in> set (columns d) then getattr ext d (strip s)
          else (case py_eval ext s d of
                  Inl e \<Rightarrow> Inl e
                | Inr evaluated \<Rightarrow> getitem ext d evaluated))"

text \<open>The property \<^verbatim>\<open>TableView.filter\<close>: the value of the editor, or \<^verbatim>\<open>None\<close> when empty.\<close>

definition filter_property :: "'c TableView \<Rightarrow> string option" where
  "filter_property tv =
     (if cap_value (tv_filter tv) \<noteq> [] then Some (cap_value (tv_filter tv)) else None)"

text \<open>
  The substring search of the \<^verbatim>\<open>except\<close> branch. The list comprehension takes
  \<^verbatim>\<open>getattr(df, col).map(str).str.contains(...)\<close> for each column in turn: a column value
  has \<^verbatim>\<open>map\<close> and the string accessor, a frame or another object has not (an
  AttributeError), and the first exception ends the comprehension.
\<close>

definition column_mask :: "'c externals \<Rightarrow> string \<Rightarrow> 'c dataframe \<Rightarrow> string \<Rightarrow> exn + bool series" where
  "column_mask ext t d col =
     (case getattr ext d col of
        Inl e \<Rightarrow> Inl e
      | Inr (Column s) \<Rightarrow> Inr (contains_mask (py_str ext) t s)
      | Inr (Frame f) \<Rightarrow> Inl AttributeError
      | Inr Object \<Rightarrow> Inl AttributeError)"

fun collect :: "(exn + 'a) list \<Rightarrow> exn + 'a list" where
  "collect [] = Inr []"
| "collect (r # rs) =
     (case r of
        Inl e \<Rightarrow> Inl e
      | Inr x \<Rightarrow> (case collect rs of Inl e \<Rightarrow> Inl e | Inr xs \<Rightarrow> Inr (x # xs)))"

definition substring_search :: "'c externals \<Rightarrow> string \<Rightarrow> 'c dataframe \<Rightarrow> exn + 'c lazy" where
  "substring_search ext t d =
     (case collect (map (column_mask ext t d) (columns d)) of
        Inl e \<Rightarrow> Inl e
      | Inr masks \<Rightarrow>
          (case reduce series_or masks of
             Inl e \<Rightarrow> Inl e
           | Inr m \<Rightarrow> Inr (Computed (select_rows d m))))"

text \<open>
  The nested function \<^verbatim>\<open>filter(df)\<close> of \<^verbatim>\<open>__rich_console__\<close>. An object that is not a
  frame is sent \<^verbatim>\<open>to_frame()\<close>, which a column value has and another object has not
  (an AttributeError, caught as every other exception of the \<^verbatim>\<open>try\<close> block).
\<close>

definition filter_df :: "'c externals \<Rightarrow> 'c TableView \<Rightarrow> 'c dataframe \<Rightarrow> exn + 'c lazy" where
  "filter_df ext tv d =
     (let handler = (case filter_property tv of
                       Some t \<Rightarrow> substring_search ext t d
                     | None \<Rightarrow> Inr (Computed d))
      in case compile_filter ext (filter_property tv) d of
           Inr (Frame f) \<Rightarrow> Inr f
         | Inr (Column s) \<Rightarrow> Inr (Computed (to_frame s))
         | Inr Object \<Rightarrow> handler
         | Inl e \<Rightarrow> handler)"

section \<open>The windowed renderer\<close>

text \<open>
  Lines 255 to 274 of \<^verbatim>\<open>__rich_console__\<close>: \<open>maxima\<close> are the measured maximum widths
  of \<^verbatim>\<open>columns\<close>, one for each.
\<close>

definition column_fit :: "int \<Rightarrow> int list \<Rightarrow> string list \<Rightarrow> 'a list list \<Rightarrow> string list \<times> 'a list list" where
  "column_fit width maxima column_names paged =
     (let max_column_widths = map (\<lambda>w. w + 1) maxima;
          total_width = accumulate max_column_widths;
          cant_render = filter (\<lambda>i. width < total_width ! i) [0..<length total_width]
      in if cant_render \<noteq> [] then
           (let max_column = max (int (hd cant_render)) 1;
                max_column2 =
                  (if max_column < int (length maxima) then
                     (let available_width = width - total_width ! nat (max_column - 1)
                      in if 30 \<le> available_width
                            \<and> 4 \<le> real_of_int available_width / real_of_int max_column
                         then max_column + 1 else max_column)
                   else max_column)
            in (take (nat max_column2) column_names, map (take (nat max_column2)) paged))
         else (column_names, paged))"

text \<open>Lines 249 to 274: the columns of the page are built, measured and fitted.\<close>

definition fit_page :: "'c externals \<Rightarrow> int \<Rightarrow> string list \<Rightarrow> 'c tup list list \<Rightarrow> string list \<times> 'c tup list list" where
  "fit_page ext width column_names paged =
     column_fit width (map (measure_column ext) (zip column_names (zip_star paged)))
       column_names paged"

record console_options =
  opt_height :: int
  opt_max_width :: int

text \<open>
  What \<^verbatim>\<open>__rich_console__\<close> yields: the filter line when it is shown, the table (its
  header and its rows) and the count of the last line.
\<close>

record 'c frame =
  fr_filter_shown :: bool
  fr_column_names :: "string list"
  fr_rows :: "'c tup list list"
  fr_total_rows :: int

text \<open>
  The height of the page: the viewport less the 7 lines around the rows, and less the
  filter line when \<^verbatim>\<open>self._filter.value or self._filter.editing\<close> holds; a string is
  true when its length is not 0.
\<close>

definition body_height :: "console_options \<Rightarrow> 'c TableView \<Rightarrow> int" where
  "body_height options tv =
     (if 0 < length (cap_value (tv_filter tv)) \<or> cap_editing (tv_filter tv)
      then opt_height options - 7 - 1 else opt_height options - 7)"

definition filtered_view :: "'c externals \<Rightarrow> 'c TableView \<Rightarrow> exn + 'c lazy" where
  "filtered_view ext tv =
     (case filter_df ext tv (tv_df tv) of
        Inl e \<Rightarrow> Inl e
      | Inr f \<Rightarrow> Inr (lazy_iloc_columns_from (column_startat tv) f))"

text \<open>
  \<^verbatim>\<open>__rich_console__\<close>. The filter, the page and the count of the last line are outside
  any \<^verbatim>\<open>try\<close>: an exception of one of them leaves the method.
\<close>

definition rich_console :: "'c externals \<Rightarrow> console_options \<Rightarrow> 'c TableView \<Rightarrow> 'c TableView \<times> (exn + 'c frame)" where
  "rich_console ext options tv =
     (let height = body_height options tv;
          width = opt_max_width options - 2;
          tv1 = tv\<lparr>tv_last_page_size := height\<rparr>
      in (tv1,
          case filtered_view ext tv1 of
            Inl e \<Rightarrow> Inl e
          | Inr filtered \<Rightarrow>
              (case lazy_page filtered (startat tv1) (startat tv1 + height) of
                 Inl e \<Rightarrow> Inl e
               | Inr paged \<Rightarrow>
                   (let fitted = fit_page ext width ('' '' # lazy_columns filtered) paged
                    in case lazy_len filtered of
                         Inl e \<Rightarrow> Inl e
                       | Inr total_rows \<Rightarrow>
                           Inr \<lparr>fr_filter_shown =
                                  (0 < length (cap_value (tv_filter tv)) \<or> cap_editing (tv_filter tv)),
                                fr_column_names = fst fitted,
                                fr_rows = snd fitted,
                                fr_total_rows = total_rows\<rparr>))))"

section \<open>The interface (class Interface)\<close>

datatype Mode = SUMMARY | TABLE | HELP

text \<open>
  \<^verbatim>\<open>self.editing\<close> is \<^verbatim>\<open>None\<close> or a reference to an editor. The only editor the code
  ever assigns to it is \<^verbatim>\<open>self.table._filter\<close>, the same object and not a copy: what the
  handler does to \<^verbatim>\<open>self.editing\<close> is done to the filter of the table. The counter
  \<open>refreshes\<close> counts the calls of the \<^verbatim>\<open>refresh\<close> callback.
\<close>

datatype editor_ref = TableFilter

record 'c Interface =
  itf_df :: "'c dataframe"
  table :: "'c TableView"
  mode :: Mode
  editing :: "editor_ref option"
  refreshes :: nat

definition Interface_init :: "'c dataframe \<Rightarrow> 'c Interface" where
  "Interface_init d =
     \<lparr>itf_df = d, table = TableView_init d, mode = TABLE, editing = None, refreshes = 0\<rparr>"

definition deref :: "editor_ref \<Rightarrow> 'c Interface \<Rightarrow> CaptureKeyboardInput" where
  "deref r itf = (case r of TableFilter \<Rightarrow> tv_filter (table itf))"

definition assign :: "editor_ref \<Rightarrow> CaptureKeyboardInput \<Rightarrow> 'c Interface \<Rightarrow> 'c Interface" where
  "assign r ed itf = (case r of TableFilter \<Rightarrow> itf\<lparr>table := (table itf)\<lparr>tv_filter := ed\<rparr>\<rparr>)"

definition refresh :: "'c Interface \<Rightarrow> 'c Interface" where
  "refresh itf = itf\<lparr>refreshes := Suc (refreshes itf)\<rparr>"

subsection \<open>Commands\<close>

record 'c Command =
  cmd_key :: char
  cmd_short_description :: string
  cmd_fn :: "'c Interface \<Rightarrow> 'c Interface \<times> bool"

text \<open>
  \<^verbatim>\<open>add_command\<close>: a key that is registered already is a KeyError. The dictionary keeps
  the order of insertion. The help text of a command, the docstring of its function, is
  not modelled.
\<close>

definition add_command :: "(char \<times> 'c Command) list \<Rightarrow> char \<Rightarrow> string \<Rightarrow> ('c Interface \<Rightarrow> 'c Interface \<times> bool) \<Rightarrow> exn + (char \<times> 'c Command) list" where
  "add_command command_dict k short f =
     (if k \<in> fst ` set command_dict then Inl KeyError
      else Inr (command_dict @ [(k, \<lparr>cmd_key = k, cmd_short_description = short, cmd_fn = f\<rparr>)]))"

definition edit_filter :: "'c Interface \<Rightarrow> 'c Interface \<times> bool" where
  "edit_filter itf =
     (let itf1 = itf\<lparr>editing := Some TableFilter\<rparr>;
          itf2 = assign TableFilter ((deref TableFilter itf1)\<lparr>cap_editing := True\<rparr>) itf1
      in (refresh itf2, True))"

definition summary_mode :: "'c Interface \<Rightarrow> 'c Interface \<times> bool" where
  "summary_mode itf = (refresh (itf\<lparr>mode := SUMMARY\<rparr>), True)"

definition table_mode :: "'c Interface \<Rightarrow> 'c Interface \<times> bool" where
  "table_mode itf = (refresh (itf\<lparr>mode := TABLE\<rparr>), True)"

definition scroll_left :: "'c Interface \<Rightarrow> 'c Interface \<times> bool" where
  "scroll_left itf =
     (refresh (itf\<lparr>table := column_startat_setter (column_startat (table itf) - 1) (table itf)\<rparr>),
      True)"

definition scroll_down :: "'c Interface \<Rightarrow> 'c Interface \<times> bool" where
  "scroll_down itf = (refresh (itf\<lparr>table := increment_page (table itf)\<rparr>), True)"

definition scroll_up :: "'c Interface \<Rightarrow> 'c Interface \<times> bool" where
  "scroll_up itf = (refresh (itf\<lparr>table := decrement_page (table itf)\<rparr>), True)"

definition scroll_right :: "'c Interface \<Rightarrow> 'c Interface \<times> bool" where
  "scroll_right itf =
     (refresh (itf\<lparr>table := column_startat_setter (column_startat (table itf) + 1) (table itf)\<rparr>),
      True)"

definition go_to_top :: "'c Interface \<Rightarrow> 'c Interface \<times> bool" where
  "go_to_top itf = (refresh (itf\<lparr>table := startat_setter 0 (table itf)\<rparr>), True)"

definition go_to_bottom :: "'c Interface \<Rightarrow> 'c Interface \<times> bool" where
  "go_to_bottom itf =
     (refresh (itf\<lparr>table :=
        startat_setter (len (itf_df itf) - tv_last_page_size (table itf)) (table itf)\<rparr>),
      True)"

definition quit :: "'c Interface \<Rightarrow> 'c Interface \<times> bool" where
  "quit itf = (itf, False)"

definition show_help :: "'c Interface \<Rightarrow> 'c Interface \<times> bool" where
  "show_help itf = (refresh (itf\<lparr>mode := HELP\<rparr>), True)"

text \<open>The two class dictionaries, as the decorators of the class body fill them.\<close>

definition mk_command :: "char \<Rightarrow> string \<Rightarrow> ('c Interface \<Rightarrow> 'c Interface \<times> bool) \<Rightarrow> char \<times> 'c Command" where
  "mk_command k short f = (k, \<lparr>cmd_key = k, cmd_short_description = short, cmd_fn = f\<rparr>)"

definition table_commands :: "(char \<times> 'c Command) list" where
  "table_commands =
     [mk_command (CHR ''/'') ''filter'' edit_filter,
      mk_command (CHR ''h'') ''scroll left'' scroll_left,
      mk_command (CHR ''j'') ''scroll down'' scroll_down,
      mk_command (CHR ''k'') ''scroll up'' scroll_up,
      mk_command (CHR ''l'') ''scroll right'' scroll_right,
      mk_command (CHR ''g'') ''Go to top'' go_to_top,
      mk_command (CHR ''G'') ''Go to bottom'' go_to_bottom]"

definition commands :: "(char \<times> 'c Command) list" where
  "commands =
     [mk_command (CHR ''s'') ''(s)ummary'' summary_mode,
      mk_command (CHR ''t'') ''(t)able'' table_mode,
      mk_command (CHR ''q'') ''(q)uit'' quit,
      mk_command (CHR ''?'') ''help'' show_help]"

text \<open>The decorators of the class body, applied one after the other to a dictionary.\<close>

fun register :: "(char \<times> string \<times> ('c Interface \<Rightarrow> 'c Interface \<times> bool)) list \<Rightarrow> (char \<times> 'c Command) list \<Rightarrow> exn + (char \<times> 'c Command) list" where
  "register [] command_dict = Inr command_dict"
| "register (entry # rest) command_dict =
     (case add_command command_dict (fst entry) (fst (snd entry)) (snd (snd entry)) of
        Inl e \<Rightarrow> Inl e
      | Inr command_dict2 \<Rightarrow> register rest command_dict2)"

subsection \<open>The keyboard handler\<close>

text \<open>
  The body of \<^verbatim>\<open>if ch == ESCAPE_KEY or not self.editing.send_character(ch)\<close>: the
  finalize callback is called, the editor leaves the editing state and the interface
  lets go of it.
\<close>

definition end_editing :: "editor_ref \<Rightarrow> 'c Interface \<Rightarrow> 'c Interface" where
  "end_editing r itf =
     (let ed = deref r itf;
          ed1 = set_fields (finalize ed (get_fields ed)) (ed\<lparr>calls := calls ed @ [Finalize_called]\<rparr>);
          ed2 = ed1\<lparr>cap_editing := False\<rparr>
      in (assign r ed2 itf)\<lparr>editing := None\<rparr>)"

text \<open>
  \<^verbatim>\<open>keyboard_handler(ch, refresh)\<close>. The \<^verbatim>\<open>or\<close> is evaluated from the left: for the
  escape key \<^verbatim>\<open>send_character\<close> is not called.
\<close>

definition dispatch :: "(char \<times> 'c Command) list \<Rightarrow> (char \<times> 'c Command) list \<Rightarrow> char \<Rightarrow> 'c Interface \<Rightarrow> 'c Interface \<times> bool" where
  "dispatch tcs cs ch itf =
     (case editing itf of
        Some r \<Rightarrow>
          (let itf1 =
                 (if ch = ESCAPE_KEY then end_editing r itf
                  else (let sent = send_character ch (deref r itf);
                            itf2 = assign r (fst sent) itf
                        in if \<not> snd sent then end_editing r itf2 else itf2))
           in (refresh itf1, True))
      | None \<Rightarrow>
          (case (if mode itf = TABLE then map_of tcs ch else None) of
             Some c \<Rightarrow> cmd_fn c itf
           | None \<Rightarrow>
               (case map_of cs ch of
                  Some c \<Rightarrow> cmd_fn c itf
                | None \<Rightarrow> (itf, True))))"

definition keyboard_handler :: "char \<Rightarrow> 'c Interface \<Rightarrow> 'c Interface \<times> bool" where
  "keyboard_handler ch itf = dispatch table_commands commands ch itf"

text \<open>
  One editing session: the characters are handled one after the other for as long as an
  editor is active; the answers of the handler are collected.
\<close>

fun session :: "char list \<Rightarrow> 'c Interface \<Rightarrow> 'c Interface \<times> bool list" where
  "session [] itf = (itf, [])"
| "session (ch # chs) itf =
     (if editing itf = None then (itf, [])
      else (let r = keyboard_handler ch itf;
                rest = session chs (fst r)
            in (fst rest, snd r # snd rest)))"

section \<open>The column-fit property of the spec\<close>

text \<open>
  The spec states the column-fit property over the measured width of each admitted
  column. These definitions follow the words of the spec, to be compared with
  \<open>fit_page\<close>: column \<open>j\<close> of a page holds cell \<open>j\<close> of each of its rows, its width is
  its measured maximum plus 1 for the separator, and the cumulative width up to column
  \<open>i\<close> is the sum of the widths of the columns \<open>0\<close> to \<open>i\<close>. The property: at least
  one and at most all columns are admitted, and the cumulative width up to each admitted
  column but the last is within the width of the viewport.
\<close>

definition page_column :: "'a list list \<Rightarrow> nat \<Rightarrow> 'a list" where
  "page_column paged j = map (\<lambda>row. row ! j) paged"

definition cumulative_width :: "'c externals \<Rightarrow> string list \<Rightarrow> 'c tup list list \<Rightarrow> nat \<Rightarrow> int" where
  "cumulative_width ext names paged i =
     sum_list (map (\<lambda>j. measure_column ext (names ! j, page_column paged j) + 1) [0..<Suc i])"

definition column_fit_claim :: "'c externals \<Rightarrow> int \<Rightarrow> string list \<Rightarrow> 'c tup list list \<Rightarrow> bool" where
  "column_fit_claim ext width names paged =
     (let k = length (fst (fit_page ext width names paged))
      in 1 \<le> k \<and> k \<le> length names
         \<and> (\<forall>i. Suc i < k \<longrightarrow> cumulative_width ext names paged i \<le> width))"

section \<open>Example inputs\<close>

definition df_example :: "string dataframe" where
  "df_example = \<lparr>dindex = [0, 1, 2],
      dcols = [(''Name'', [''ann'', ''bob'', ''cy'']), (''Age'', [''31'', ''27'', ''45''])]\<rparr>"

definition df_no_rows :: "string dataframe" where
  "df_no_rows = \<lparr>dindex = [], dcols = [(''Name'', []), (''Age'', [])]\<rparr>"

definition df_ten_rows :: "string dataframe" where
  "df_ten_rows = \<lparr>dindex = [0, 1, 2, 3, 4, 5, 6, 7, 8, 9],
      dcols = [(''Name'', [''a'', ''b'', ''c'', ''d'', ''e'', ''f'', ''g'', ''h'', ''i'', ''j''])]\<rparr>"

definition tv_paging :: "string TableView" where
  "tv_paging = (TableView_init df_ten_rows)\<lparr>tv_last_page_size := 3, tv_startat := 2\<rparr>"

definition cap_example :: cap_fields where
  "cap_example = \<lparr>prompt = Some ''filter: '',
      cap_value = ''Age'' @ [CARRIAGE_RETURN, NEWLINE], cap_editing = True\<rparr>"

definition itf_example :: "string Interface" where
  "itf_example = Interface_init df_example"

definition itf_editing :: "string Interface" where
  "itf_editing = fst (edit_filter (Interface_init df_example))"

text \<open>Typing a text into the filter prompt leaves it as the value of the editor.\<close>

definition with_filter_text :: "string \<Rightarrow> 'c TableView \<Rightarrow> 'c TableView" where
  "with_filter_text t tv = tv\<lparr>tv_filter := (tv_filter tv)\<lparr>cap_value := t\<rparr>\<rparr>"

text \<open>
  Instances of the parameters, for cells that are strings. In the first, no text
  evaluates (every text is an unbound name), a key that is neither a mask nor a label is
  rejected by the frame, no column is named like an attribute of the frame, and a column
  is as wide as its header. In the second the text \<^verbatim>\<open>'Age'\<close>, with its quotes,
  evaluates to the label \<^verbatim>\<open>Age\<close>. In the third the text \<^verbatim>\<open>Name + Name\<close> evaluates
  to the column of the names written twice, and the frame indexed by a column value
  that is not boolean is, as in dask, a lazy frame: it is built without an exception,
  and the entries of the key are looked up as column labels when its rows are computed,
  which is a KeyError there, since the entries are not labels of the frame. In the
  fourth \<^verbatim>\<open>count\<close> is an attribute of the frame object, the method
  \<^verbatim>\<open>DataFrame.count\<close>.
\<close>

definition ext_nameerror :: "string externals" where
  "ext_nameerror = \<lparr>py_eval = (\<lambda>s d. Inl NameError), py_str = (\<lambda>v. v),
      index_other = (\<lambda>d k. Inl KeyError), own_attr = (\<lambda>d name. None),
      measure_column = (\<lambda>c. int (length (fst c)))\<rparr>"

definition QUOTE :: char where
  "QUOTE = CHR 0x27"

definition ext_label :: "string externals" where
  "ext_label = ext_nameerror\<lparr>py_eval :=
      (\<lambda>s d. if s = QUOTE # ''Age'' @ [QUOTE] then Inr (Label ''Age'') else Inl NameError)\<rparr>"

definition ext_sum :: "string externals" where
  "ext_sum = ext_nameerror\<lparr>py_eval :=
      (\<lambda>s d. if s = ''Name + Name''
              then Inr (ColumnValue \<lparr>sname = ''Name'', sindex = dindex d,
                          svalues = map (\<lambda>v. v @ v) (svalues (column d ''Name''))\<rparr>)
              else Inl NameError),
      index_other := (\<lambda>d k. Inr (Frame (Failing (columns d) KeyError)))\<rparr>"

definition ext_count :: "string externals" where
  "ext_count = ext_nameerror\<lparr>own_attr :=
      (\<lambda>d name. if name = ''count'' then Some Object else None)\<rparr>"

definition df_count :: "string dataframe" where
  "df_count = \<lparr>dindex = [0, 1],
      dcols = [(''Name'', [''ann'', ''bob'']), (''count'', [''3'', ''5''])]\<rparr>"

definition name_twice :: "string series" where
  "name_twice = \<lparr>sname = ''Name'', sindex = [0, 1, 2],
      svalues = [''annann'', ''bobbob'', ''cycy'']\<rparr>"

definition df_no_columns :: "string dataframe" where
  "df_no_columns = \<lparr>dindex = [0, 1], dcols = []\<rparr>"

definition tv_filtered :: "string TableView" where
  "tv_filtered = startat_setter 2 (with_filter_text ''zzz'' (TableView_init df_example))"

definition options_example :: console_options where
  "options_example = \<lparr>opt_height = 20, opt_max_width = 80\<rparr>"

definition options_low :: console_options where
  "options_low = \<lparr>opt_height = 5, opt_max_width = 80\<rparr>"

definition options_narrow :: console_options where
  "options_narrow = \<lparr>opt_height = 20, opt_max_width = 7\<rparr>"

definition page_example :: "string tup list list" where
  "page_example = [[Idx 0, Val ''ann'', Val ''31''], [Idx 1, Val ''bob'', Val ''27'']]"

section \<open>Row offset\<close>

lemma startat_setter_in_range:
  "0 < len (tv_df tv) \<Longrightarrow>
     0 \<le> startat (startat_setter v tv) \<and> startat (startat_setter v tv) < len (tv_df tv)"
  by (simp add: startat_setter_def startat_def)

text \<open>
  C1. The claim: after the setter the stored row offset is at least 0 and below
  \<open>max(rowCount, 1)\<close>, and it is 0 for an empty source. The setter computes
  \<^verbatim>\<open>min(len(df) - 1, max(0, startat))\<close>: for a source that has rows the bound holds
  (\<open>startat_setter_in_range\<close>), and for a source without rows the stored offset is
  \<open>-1\<close>, whatever was requested. Here it is evaluated for the request 0, which is what
  the command "go to top" sends.
\<close>

theorem startat_setter_empty_source:
  "startat (startat_setter 0 (TableView_init df_no_rows)) = - 1"
  by (simp add: startat_setter_def startat_def TableView_init_def len_def df_no_rows_def)

text \<open>
  C6. Page-down followed by page-up gives back the row offset, when neither of the two
  assignments is changed by the clamp of the setter. No frame is rendered in between, so
  the page size is the same for both.
\<close>

theorem page_down_then_page_up:
  assumes "unclamped (startat tv + tv_last_page_size tv) tv"
    and "unclamped (startat (increment_page tv) - tv_last_page_size (increment_page tv))
           (increment_page tv)"
  shows "startat (decrement_page (increment_page tv)) = startat tv"
proof -
  have lps: "tv_last_page_size (increment_page tv) = tv_last_page_size tv"
    by (simp add: increment_page_def startat_setter_def)
  have up: "startat (increment_page tv) = startat tv + tv_last_page_size tv"
    using assms(1) by (simp add: unclamped_def increment_page_def)
  have "startat (decrement_page (increment_page tv))
          = startat (increment_page tv) - tv_last_page_size (increment_page tv)"
    using assms(2) by (simp add: unclamped_def decrement_page_def)
  with lps up show ?thesis by simp
qed

theorem page_down_then_page_up_witness:
  "unclamped (startat tv_paging + tv_last_page_size tv_paging) tv_paging
   \<and> unclamped (startat (increment_page tv_paging) - tv_last_page_size (increment_page tv_paging))
       (increment_page tv_paging)
   \<and> startat (increment_page tv_paging) = 5
   \<and> startat (decrement_page (increment_page tv_paging)) = 2"
proof -
  have a: "unclamped (startat tv_paging + tv_last_page_size tv_paging) tv_paging"
    by (simp add: unclamped_def tv_paging_def startat_def startat_setter_def
          TableView_init_def len_def df_ten_rows_def)
  have b: "unclamped (startat (increment_page tv_paging) - tv_last_page_size (increment_page tv_paging))
             (increment_page tv_paging)"
    by (simp add: unclamped_def tv_paging_def startat_def startat_setter_def
          TableView_init_def len_def increment_page_def df_ten_rows_def)
  have c: "startat (increment_page tv_paging) = 5"
    by (simp add: tv_paging_def startat_def startat_setter_def TableView_init_def len_def
          increment_page_def df_ten_rows_def)
  have d: "startat tv_paging = 2"
    by (simp add: tv_paging_def startat_def)
  have e: "startat (decrement_page (increment_page tv_paging)) = 2"
    using page_down_then_page_up [OF a b] d by simp
  show ?thesis by (intro conjI) (rule a b c e)+
qed

section \<open>The update policy of the filter prompt\<close>

lemma endswith_newline: "endswith s [NEWLINE] \<longleftrightarrow> s \<noteq> [] \<and> last s = NEWLINE"
proof (cases s rule: rev_cases)
  case Nil
  then show ?thesis by (simp add: endswith_def)
next
  case (snoc ys y)
  then show ?thesis by (auto simp add: endswith_def)
qed

lemma rstrip_decomp: "\<exists>t. s = rstrip cs s @ t \<and> set t \<subseteq> set cs"
proof -
  let ?p = "\<lambda>c. c \<in> set cs"
  have "rev s = takeWhile ?p (rev s) @ dropWhile ?p (rev s)"
    by simp
  then have "s = rev (dropWhile ?p (rev s)) @ rev (takeWhile ?p (rev s))"
    by (metis rev_append rev_rev_ident)
  moreover have "set (rev (takeWhile ?p (rev s))) \<subseteq> set cs"
    by (auto dest: set_takeWhileD)
  ultimately show ?thesis unfolding rstrip_def by blast
qed

lemma rstrip_last: "rstrip cs s = [] \<or> last (rstrip cs s) \<notin> set cs"
proof (cases "dropWhile (\<lambda>c. c \<in> set cs) (rev s)")
  case Nil
  then show ?thesis by (simp add: rstrip_def)
next
  case (Cons x xs)
  then have "\<not> x \<in> set cs" by (metis hd_dropWhile list.sel(1) list.distinct(1))
  with Cons show ?thesis by (simp add: rstrip_def)
qed

text \<open>
  C8. \<^verbatim>\<open>send_character\<close> calls the policy with the editor and its value, so the buffer
  \<open>s\<close> is the value of the editor. The policy answers \<open>False\<close> exactly when the buffer
  ends with a newline; the value it then leaves is the buffer without its trailing run
  of newline and carriage-return characters: the buffer is that value followed by such
  characters only, and the value does not end with one. When the policy answers
  \<open>True\<close> the editor is as it was.
\<close>

theorem exit_on_return_policy:
  assumes "cap_value cap = s"
  shows "(snd (exit_on_return cap s) = False \<longleftrightarrow> s \<noteq> [] \<and> last s = NEWLINE)
    \<and> (snd (exit_on_return cap s) = False \<longrightarrow>
         (\<exists>t. s = cap_value (fst (exit_on_return cap s)) @ t
              \<and> set t \<subseteq> {CARRIAGE_RETURN, NEWLINE})
         \<and> (cap_value (fst (exit_on_return cap s)) = []
            \<or> last (cap_value (fst (exit_on_return cap s))) \<notin> {CARRIAGE_RETURN, NEWLINE}))
    \<and> (snd (exit_on_return cap s) = True \<longrightarrow> fst (exit_on_return cap s) = cap)"
  using assms rstrip_decomp [of s "[CARRIAGE_RETURN, NEWLINE]"]
    rstrip_last [of "[CARRIAGE_RETURN, NEWLINE]" s]
  by (auto simp add: exit_on_return_def endswith_newline)

theorem exit_on_return_policy_witness:
  "cap_value cap_example = ''Age'' @ [CARRIAGE_RETURN, NEWLINE]
   \<and> snd (exit_on_return cap_example (''Age'' @ [CARRIAGE_RETURN, NEWLINE])) = False
   \<and> cap_value (fst (exit_on_return cap_example (''Age'' @ [CARRIAGE_RETURN, NEWLINE]))) = ''Age''"
proof -
  have v: "cap_value cap_example = ''Age'' @ [CARRIAGE_RETURN, NEWLINE]"
    by (simp add: cap_example_def)
  have l: "''Age'' @ [CARRIAGE_RETURN, NEWLINE] \<noteq> []
           \<and> last (''Age'' @ [CARRIAGE_RETURN, NEWLINE]) = NEWLINE"
    by simp
  have f: "snd (exit_on_return cap_example (''Age'' @ [CARRIAGE_RETURN, NEWLINE])) = False"
    using exit_on_return_policy [OF v] l by blast
  have c: "cap_value (fst (exit_on_return cap_example (''Age'' @ [CARRIAGE_RETURN, NEWLINE]))) = ''Age''"
    by (simp add: exit_on_return_def cap_example_def endswith_def rstrip_def
          CARRIAGE_RETURN_def NEWLINE_def)
  show ?thesis by (intro conjI) (rule v f c)+
qed

section \<open>The keyboard handler\<close>

text \<open>
  The two dictionaries are what the decorators build, in the order of the class body,
  and no key is registered twice in its dictionary.
\<close>

lemma table_commands_registered:
  "register [(CHR ''/'', ''filter'', edit_filter), (CHR ''h'', ''scroll left'', scroll_left),
             (CHR ''j'', ''scroll down'', scroll_down), (CHR ''k'', ''scroll up'', scroll_up),
             (CHR ''l'', ''scroll right'', scroll_right), (CHR ''g'', ''Go to top'', go_to_top),
             (CHR ''G'', ''Go to bottom'', go_to_bottom)] [] = Inr table_commands"
  by (simp add: add_command_def table_commands_def mk_command_def)

lemma commands_registered:
  "register [(CHR ''s'', ''(s)ummary'', summary_mode), (CHR ''t'', ''(t)able'', table_mode),
             (CHR ''q'', ''(q)uit'', quit), (CHR ''?'', ''help'', show_help)] [] = Inr commands"
  by (simp add: add_command_def commands_def mk_command_def)

lemma add_command_twice:
  "add_command command_dict k short f = Inr command_dict2
     \<Longrightarrow> add_command command_dict2 k short2 f2 = Inl KeyError"
  by (auto simp add: add_command_def split: if_splits)

lemma calls_send_character:
  "calls (fst (send_character ch ed)) = calls ed @ [Update_called]"
  by (simp add: send_character_def set_fields_def Let_def)

lemma calls_end_editing:
  "calls (deref r (end_editing r itf)) = calls (deref r itf) @ [Finalize_called]"
  by (cases r) (simp add: end_editing_def deref_def assign_def set_fields_def Let_def)

lemma editing_end_editing: "editing (end_editing r itf) = None"
  by (simp add: end_editing_def Let_def)

lemma deref_refresh: "deref r (refresh itf) = deref r itf"
  by (cases r) (simp add: deref_def refresh_def)

lemma editing_refresh: "editing (refresh itf) = editing itf"
  by (simp add: refresh_def)

lemma deref_assign: "deref r (assign r ed itf) = ed"
  by (cases r) (simp add: deref_def assign_def)

lemma editing_assign: "editing (assign r ed itf) = editing itf"
  by (cases r) (simp add: assign_def)

lemma handler_escape:
  assumes "editing itf = Some r"
  shows "editing (fst (keyboard_handler ESCAPE_KEY itf)) = None"
    and "calls (deref r (fst (keyboard_handler ESCAPE_KEY itf)))
           = calls (deref r itf) @ [Finalize_called]"
    and "\<not> cap_editing (deref r (fst (keyboard_handler ESCAPE_KEY itf)))"
  using assms
  by (simp_all add: keyboard_handler_def dispatch_def deref_refresh editing_refresh
        calls_end_editing editing_end_editing)
     (cases r, simp add: end_editing_def Let_def deref_def assign_def set_fields_def)

lemma handler_editing_step:
  assumes "editing itf = Some r"
  shows "snd (keyboard_handler ch itf) = True"
    and "editing (fst (keyboard_handler ch itf)) = None
         \<or> editing (fst (keyboard_handler ch itf)) = Some r"
    and "count_list (calls (deref r (fst (keyboard_handler ch itf)))) Finalize_called
         = count_list (calls (deref r itf)) Finalize_called
           + (if editing (fst (keyboard_handler ch itf)) = None then 1 else 0)"
  using assms
  by (simp_all add: keyboard_handler_def dispatch_def deref_refresh editing_refresh
        calls_end_editing editing_end_editing Let_def deref_assign editing_assign
        calls_send_character)

lemma session_inactive: "editing itf = None \<Longrightarrow> session chs itf = (itf, [])"
  by (cases chs) simp_all

lemma session_editing:
  "editing itf = Some r \<Longrightarrow>
     (\<forall>b \<in> set (snd (session chs itf)). b)
     \<and> count_list (calls (deref r (fst (session chs itf)))) Finalize_called
         = count_list (calls (deref r itf)) Finalize_called
           + (if editing (fst (session chs itf)) = None then 1 else 0)"
proof (induction chs arbitrary: itf)
  case Nil
  then show ?case by simp
next
  case (Cons ch chs)
  let ?itf1 = "fst (keyboard_handler ch itf)"
  note step = handler_editing_step [OF Cons.prems, of ch]
  show ?case
  proof (cases "editing ?itf1")
    case None
    then have "session chs ?itf1 = (?itf1, [])" by (rule session_inactive)
    with None step Cons.prems show ?thesis by (simp add: Let_def)
  next
    case (Some r')
    with step(2) have r: "editing ?itf1 = Some r" by simp
    from Cons.IH [OF r] step r Cons.prems show ?thesis by (auto simp add: Let_def)
  qed
qed

lemma callbacks_send_character:
  "finalize (fst (send_character ch ed)) = finalize ed"
  "update (fst (send_character ch ed)) = update ed"
  by (simp_all add: send_character_def set_fields_def Let_def)

lemma get_fields_set_fields: "get_fields (set_fields c ed) = c"
  by (simp add: get_fields_def set_fields_def)

lemma fields_end_editing:
  "get_fields (deref r (end_editing r itf))
     = (finalize (deref r itf) (get_fields (deref r itf)))\<lparr>cap_editing := False\<rparr>"
  by (cases r) (simp add: end_editing_def deref_def assign_def set_fields_def get_fields_def Let_def)

lemma send_character_append:
  assumes "ch \<noteq> BACKSPACE" and "ch \<noteq> CTRL_H" and "ch \<noteq> CTRL_K"
  shows "get_fields (fst (send_character ch ed))
           = fst (update ed ((get_fields ed)\<lparr>cap_value := cap_value ed @ [ch]\<rparr>) (cap_value ed @ [ch]))"
    and "snd (send_character ch ed)
           = snd (update ed ((get_fields ed)\<lparr>cap_value := cap_value ed @ [ch]\<rparr>) (cap_value ed @ [ch]))"
  using assms by (simp_all add: send_character_def Let_def get_fields_set_fields) (simp_all add: get_fields_def)

lemma handler_escape_fields:
  assumes "editing itf = Some r"
  shows "get_fields (deref r (fst (keyboard_handler ESCAPE_KEY itf)))
           = (finalize (deref r itf) (get_fields (deref r itf)))\<lparr>cap_editing := False\<rparr>"
  using assms
  by (simp add: keyboard_handler_def dispatch_def deref_refresh fields_end_editing)

lemma handler_continue:
  assumes "editing itf = Some r" and "ch \<noteq> ESCAPE_KEY" and "snd (send_character ch (deref r itf))"
  shows "editing (fst (keyboard_handler ch itf)) = Some r"
    and "deref r (fst (keyboard_handler ch itf)) = fst (send_character ch (deref r itf))"
  using assms
  by (simp_all add: keyboard_handler_def dispatch_def deref_refresh editing_refresh Let_def
        deref_assign editing_assign)

lemma handler_policy_end:
  assumes "editing itf = Some r" and "ch \<noteq> ESCAPE_KEY" and "\<not> snd (send_character ch (deref r itf))"
  shows "editing (fst (keyboard_handler ch itf)) = None"
    and "get_fields (deref r (fst (keyboard_handler ch itf)))
           = (finalize (deref r itf) (get_fields (fst (send_character ch (deref r itf)))))
               \<lparr>cap_editing := False\<rparr>"
  using assms
  by (simp_all add: keyboard_handler_def dispatch_def deref_refresh editing_refresh Let_def
        deref_assign editing_assign editing_end_editing fields_end_editing callbacks_send_character)

text \<open>
  C7. While an editor is active: the escape key ends the editing at once (the interface
  lets go of the editor) and what it does to the editor is the finalize callback,
  applied once to the editor as it was, and the reset of its editing flag: no character
  is sent and the update policy is not applied. Another character is sent to the editor,
  which applies the update policy once to the new buffer; when the policy answers
  \<open>True\<close> the editing goes on with the editor as the policy left it, and when it
  answers \<open>False\<close> the editing ends with the finalize callback applied once to the
  editor as the policy left it. The handler answers \<open>True\<close> for every character; and
  over the characters of one session the finalize callback is logged once if the session
  has ended, by either path, and not at all while it lasts.
\<close>

theorem editing_session:
  assumes "editing itf = Some r"
  shows "editing (fst (keyboard_handler ESCAPE_KEY itf)) = None
     \<and> get_fields (deref r (fst (keyboard_handler ESCAPE_KEY itf)))
         = (finalize (deref r itf) (get_fields (deref r itf)))\<lparr>cap_editing := False\<rparr>
     \<and> calls (deref r (fst (keyboard_handler ESCAPE_KEY itf)))
         = calls (deref r itf) @ [Finalize_called]
     \<and> (ch \<noteq> ESCAPE_KEY \<and> snd (send_character ch (deref r itf))
          \<longrightarrow> editing (fst (keyboard_handler ch itf)) = Some r
              \<and> deref r (fst (keyboard_handler ch itf)) = fst (send_character ch (deref r itf)))
     \<and> (ch \<noteq> ESCAPE_KEY \<and> \<not> snd (send_character ch (deref r itf))
          \<longrightarrow> editing (fst (keyboard_handler ch itf)) = None
              \<and> get_fields (deref r (fst (keyboard_handler ch itf)))
                  = (finalize (deref r itf) (get_fields (fst (send_character ch (deref r itf)))))
                      \<lparr>cap_editing := False\<rparr>)
     \<and> (ch \<noteq> BACKSPACE \<and> ch \<noteq> CTRL_H \<and> ch \<noteq> CTRL_K
          \<longrightarrow> get_fields (fst (send_character ch (deref r itf)))
                = fst (update (deref r itf)
                        ((get_fields (deref r itf))\<lparr>cap_value := cap_value (deref r itf) @ [ch]\<rparr>)
                        (cap_value (deref r itf) @ [ch]))
              \<and> snd (send_character ch (deref r itf))
                = snd (update (deref r itf)
                        ((get_fields (deref r itf))\<lparr>cap_value := cap_value (deref r itf) @ [ch]\<rparr>)
                        (cap_value (deref r itf) @ [ch])))
     \<and> snd (keyboard_handler ch itf)
     \<and> (\<forall>b \<in> set (snd (session chs itf)). b)
     \<and> count_list (calls (deref r (fst (session chs itf)))) Finalize_called
         = count_list (calls (deref r itf)) Finalize_called
           + (if editing (fst (session chs itf)) = None then 1 else 0)"
proof -
  note handler_escape(1,2) [OF assms] handler_escape_fields [OF assms]
    handler_editing_step(1) [OF assms, of ch] session_editing [OF assms, of chs]
    handler_continue [OF assms, of ch] handler_policy_end [OF assms, of ch]
    send_character_append [of ch "deref r itf"]
  then show ?thesis by blast
qed

theorem editing_session_witness:
  "editing itf_editing = Some TableFilter
   \<and> editing (fst (keyboard_handler ESCAPE_KEY itf_editing)) = None
   \<and> get_fields (deref TableFilter (fst (keyboard_handler ESCAPE_KEY itf_editing)))
       = \<lparr>prompt = Some ''filter: '', cap_value = [], cap_editing = False\<rparr>
   \<and> calls (deref TableFilter (fst (keyboard_handler ESCAPE_KEY itf_editing))) = [Finalize_called]
   \<and> CHR ''a'' \<noteq> ESCAPE_KEY
   \<and> snd (send_character (CHR ''a'') (deref TableFilter itf_editing))
   \<and> editing (fst (keyboard_handler (CHR ''a'') itf_editing)) = Some TableFilter
   \<and> cap_value (deref TableFilter (fst (keyboard_handler (CHR ''a'') itf_editing))) = ''a''
   \<and> snd (session [CHR ''a'', NEWLINE] itf_editing) = [True, True]
   \<and> editing (fst (session [CHR ''a'', NEWLINE] itf_editing)) = None
   \<and> count_list (calls (deref TableFilter (fst (session [CHR ''a'', NEWLINE] itf_editing))))
       Finalize_called = 1"
proof -
  have e: "editing itf_editing = Some TableFilter"
    by (simp add: itf_editing_def edit_filter_def Interface_init_def refresh_def assign_def Let_def)
  have d: "deref TableFilter itf_editing
             = \<lparr>prompt = Some ''filter: '', cap_value = [], cap_editing = True,
                update = exit_on_return, finalize = default_finalize, calls = []\<rparr>"
    by (simp add: itf_editing_def edit_filter_def Interface_init_def refresh_def assign_def
          deref_def Let_def TableView_init_def)
  have c: "calls (deref TableFilter itf_editing) = []"
    unfolding d by simp
  have fin: "(finalize (deref TableFilter itf_editing) (get_fields (deref TableFilter itf_editing)))
               \<lparr>cap_editing := False\<rparr>
             = \<lparr>prompt = Some ''filter: '', cap_value = [], cap_editing = False\<rparr>"
    unfolding d by (simp add: get_fields_def default_finalize_def)
  have ne: "CHR ''a'' \<noteq> ESCAPE_KEY"
    by (simp add: ESCAPE_KEY_def)
  have sa: "snd (send_character (CHR ''a'') (deref TableFilter itf_editing))"
    and va: "cap_value (fst (send_character (CHR ''a'') (deref TableFilter itf_editing))) = ''a''"
    unfolding d
    by (simp_all add: send_character_def set_fields_def get_fields_def exit_on_return_def
          endswith_def Let_def NEWLINE_def BACKSPACE_def CTRL_H_def CTRL_K_def)
  have s: "snd (session [CHR ''a'', NEWLINE] itf_editing) = [True, True]"
    and n: "editing (fst (session [CHR ''a'', NEWLINE] itf_editing)) = None"
    by (simp_all add: e itf_editing_def edit_filter_def Interface_init_def refresh_def assign_def
          deref_def Let_def TableView_init_def keyboard_handler_def dispatch_def
          send_character_def set_fields_def get_fields_def exit_on_return_def endswith_def
          end_editing_def default_finalize_def df_example_def
          ESCAPE_KEY_def NEWLINE_def BACKSPACE_def CTRL_H_def CTRL_K_def)
  note t = editing_session [OF e, of "CHR ''a''" "[CHR ''a'', NEWLINE]"]
  have k1: "editing (fst (keyboard_handler ESCAPE_KEY itf_editing)) = None"
    using t by blast
  have k2: "get_fields (deref TableFilter (fst (keyboard_handler ESCAPE_KEY itf_editing)))
              = \<lparr>prompt = Some ''filter: '', cap_value = [], cap_editing = False\<rparr>"
    using t fin by simp
  have k3: "calls (deref TableFilter (fst (keyboard_handler ESCAPE_KEY itf_editing)))
              = [Finalize_called]"
    using t c by simp
  have k4: "editing (fst (keyboard_handler (CHR ''a'') itf_editing)) = Some TableFilter"
    and k5: "deref TableFilter (fst (keyboard_handler (CHR ''a'') itf_editing))
               = fst (send_character (CHR ''a'') (deref TableFilter itf_editing))"
    using t ne sa by blast+
  have k6: "cap_value (deref TableFilter (fst (keyboard_handler (CHR ''a'') itf_editing))) = ''a''"
    unfolding k5 by (rule va)
  have "count_list (calls (deref TableFilter (fst (session [CHR ''a'', NEWLINE] itf_editing))))
          Finalize_called
        = count_list (calls (deref TableFilter itf_editing)) Finalize_called
          + (if editing (fst (session [CHR ''a'', NEWLINE] itf_editing)) = None then 1 else 0)"
    using t by blast
  then have k7: "count_list (calls (deref TableFilter (fst (session [CHR ''a'', NEWLINE] itf_editing))))
                   Finalize_called = 1"
    unfolding c n by simp
  show ?thesis by (intro conjI) (rule e k1 k2 k3 ne sa k4 k6 s n k7)+
qed

text \<open>
  C9. While no editor is active: in table mode a key of the table commands runs the
  function of that command; otherwise a key of the global commands runs the function of
  that command; a key of neither leaves the interface as it is and the handler answers
  \<open>True\<close>. The result of the handler is the result of the function, so the answer of
  the function is the answer of the handler.
\<close>

theorem dispatch_without_editor:
  assumes "editing itf = None"
  shows "(mode itf = TABLE \<and> map_of table_commands ch = Some c
            \<longrightarrow> keyboard_handler ch itf = cmd_fn c itf)
     \<and> (\<not> (mode itf = TABLE \<and> ch \<in> fst ` set (table_commands :: (char \<times> 'c Command) list))
          \<and> map_of commands ch = Some c
            \<longrightarrow> keyboard_handler ch itf = cmd_fn c itf)
     \<and> (\<not> (mode itf = TABLE \<and> ch \<in> fst ` set (table_commands :: (char \<times> 'c Command) list))
          \<and> ch \<notin> fst ` set (commands :: (char \<times> 'c Command) list)
            \<longrightarrow> keyboard_handler ch (itf :: 'c Interface) = (itf, True))"
proof (intro conjI impI)
  assume "mode itf = TABLE \<and> map_of table_commands ch = Some c"
  with assms show "keyboard_handler ch itf = cmd_fn c itf"
    by (simp add: keyboard_handler_def dispatch_def)
next
  assume a: "\<not> (mode itf = TABLE \<and> ch \<in> fst ` set (table_commands :: (char \<times> 'c Command) list))
          \<and> map_of commands ch = Some c"
  then have "(if mode itf = TABLE
              then map_of (table_commands :: (char \<times> 'c Command) list) ch else None) = None"
    by (simp add: map_of_eq_None_iff)
  with a assms show "keyboard_handler ch itf = cmd_fn c itf"
    by (simp add: keyboard_handler_def dispatch_def)
next
  assume a: "\<not> (mode itf = TABLE \<and> ch \<in> fst ` set (table_commands :: (char \<times> 'c Command) list))
          \<and> ch \<notin> fst ` set (commands :: (char \<times> 'c Command) list)"
  then have "(if mode itf = TABLE
              then map_of (table_commands :: (char \<times> 'c Command) list) ch else None) = None"
    and "map_of (commands :: (char \<times> 'c Command) list) ch = None"
    by (simp_all add: map_of_eq_None_iff)
  with assms show "keyboard_handler ch itf = (itf, True)"
    by (simp add: keyboard_handler_def dispatch_def)
qed

theorem dispatch_without_editor_witness:
  "editing itf_example = None
   \<and> mode itf_example = TABLE
   \<and> CHR ''q'' \<notin> fst ` set (table_commands :: (char \<times> string Command) list)
   \<and> map_of commands (CHR ''q'')
       = Some (snd (mk_command (CHR ''q'') ''(q)uit''
                      (quit :: string Interface \<Rightarrow> string Interface \<times> bool)))
   \<and> keyboard_handler (CHR ''q'') itf_example = (itf_example, False)
   \<and> map_of table_commands (CHR ''g'')
       = Some (snd (mk_command (CHR ''g'') ''Go to top''
                      (go_to_top :: string Interface \<Rightarrow> string Interface \<times> bool)))
   \<and> keyboard_handler (CHR ''g'') itf_example = go_to_top itf_example
   \<and> CHR ''x'' \<notin> fst ` set (table_commands :: (char \<times> string Command) list)
   \<and> CHR ''x'' \<notin> fst ` set (commands :: (char \<times> string Command) list)
   \<and> keyboard_handler (CHR ''x'') itf_example = (itf_example, True)"
proof -
  have e: "editing itf_example = None" and m: "mode itf_example = TABLE"
    by (simp_all add: itf_example_def Interface_init_def)
  have q1: "CHR ''q'' \<notin> fst ` set (table_commands :: (char \<times> string Command) list)"
    and x1: "CHR ''x'' \<notin> fst ` set (table_commands :: (char \<times> string Command) list)"
    and x2: "CHR ''x'' \<notin> fst ` set (commands :: (char \<times> string Command) list)"
    by (simp_all add: table_commands_def commands_def mk_command_def)
  have q2: "map_of commands (CHR ''q'')
              = Some (snd (mk_command (CHR ''q'') ''(q)uit''
                             (quit :: string Interface \<Rightarrow> string Interface \<times> bool)))"
    and g: "map_of table_commands (CHR ''g'')
              = Some (snd (mk_command (CHR ''g'') ''Go to top''
                             (go_to_top :: string Interface \<Rightarrow> string Interface \<times> bool)))"
    by (simp_all add: table_commands_def commands_def mk_command_def)
  have fq: "cmd_fn (snd (mk_command (CHR ''q'') ''(q)uit'' quit)) itf_example = (itf_example, False)"
    and fg: "cmd_fn (snd (mk_command (CHR ''g'') ''Go to top'' go_to_top)) itf_example
               = go_to_top itf_example"
    by (simp_all add: mk_command_def quit_def)
  have kq: "keyboard_handler (CHR ''q'') itf_example = (itf_example, False)"
    using dispatch_without_editor [OF e, of "CHR ''q''" "snd (mk_command (CHR ''q'') ''(q)uit'' quit)"]
      q1 q2 fq by simp
  have kg: "keyboard_handler (CHR ''g'') itf_example = go_to_top itf_example"
    using dispatch_without_editor [OF e, of "CHR ''g''"
        "snd (mk_command (CHR ''g'') ''Go to top'' go_to_top)"]
      m g fg by simp
  have kx: "keyboard_handler (CHR ''x'') itf_example = (itf_example, True)"
    using dispatch_without_editor [OF e, of "CHR ''x''"
        "snd (mk_command (CHR ''q'') ''(q)uit'' quit)"]
      x1 x2 by simp
  show ?thesis by (intro conjI) (rule e m q1 q2 g x1 x2 kq kg kx)+
qed

section \<open>The filter\<close>

lemma str_contains_iff: "str_contains s t \<longleftrightarrow> (\<exists>p q. s = p @ t @ q)"
proof (induction s)
  case Nil
  then show ?case by auto
next
  case (Cons c cs)
  have "take (length t) (c # cs) = t \<longleftrightarrow> (\<exists>q. c # cs = t @ q)"
    by (metis append_eq_conv_conj append_take_drop_id)
  moreover have "(\<exists>p q. c # cs = p @ t @ q) \<longleftrightarrow> (\<exists>q. c # cs = t @ q) \<or> (\<exists>p q. cs = p @ t @ q)"
  proof
    assume "\<exists>p q. c # cs = p @ t @ q"
    then obtain p q where pq: "c # cs = p @ t @ q" by blast
    show "(\<exists>q. c # cs = t @ q) \<or> (\<exists>p q. cs = p @ t @ q)"
    proof (cases p)
      case Nil
      with pq show ?thesis by auto
    next
      case (Cons a p')
      with pq have "cs = p' @ t @ q" by simp
      then show ?thesis by blast
    qed
  next
    assume "(\<exists>q. c # cs = t @ q) \<or> (\<exists>p q. cs = p @ t @ q)"
    then show "\<exists>p q. c # cs = p @ t @ q"
    proof
      assume "\<exists>q. c # cs = t @ q"
      then obtain q where "c # cs = [] @ t @ q" by auto
      then show ?thesis by blast
    next
      assume "\<exists>p q. cs = p @ t @ q"
      then obtain p q where "c # cs = (c # p) @ t @ q" by auto
      then show ?thesis by blast
    qed
  qed
  ultimately show ?case using Cons.IH by simp
qed

lemma svalues_series_or:
  assumes "length (svalues a) = n" and "length (svalues b) = n"
  shows "length (svalues (series_or a b)) = n"
    and "\<forall>i<n. svalues (series_or a b) ! i \<longleftrightarrow> svalues a ! i \<or> svalues b ! i"
  using assms by (simp_all add: series_or_def)

lemma svalues_foldl_or:
  assumes "\<forall>m \<in> set (m0 # ms). length (svalues m) = n"
  shows "length (svalues (foldl series_or m0 ms)) = n
    \<and> (\<forall>i<n. svalues (foldl series_or m0 ms) ! i \<longleftrightarrow> (\<exists>m \<in> set (m0 # ms). svalues m ! i))"
  using assms
proof (induction ms arbitrary: m0)
  case Nil
  then show ?case by simp
next
  case (Cons m ms)
  have l0: "length (svalues m0) = n" and l1: "length (svalues m) = n"
    using Cons.prems by simp_all
  note so = svalues_series_or [OF l0 l1]
  have "\<forall>x \<in> set (series_or m0 m # ms). length (svalues x) = n"
    using Cons.prems so(1) by simp
  from Cons.IH [OF this] so(2) show ?case by auto
qed

lemma column_length:
  assumes "wf_df d" and "col \<in> set (columns d)"
  shows "length (svalues (column d col)) = length (dindex d)"
proof -
  from assms(2) obtain vs where vs: "map_of (dcols d) col = Some vs"
    by (metis columns_def map_of_eq_None_iff not_Some_eq set_map)
  then have "(col, vs) \<in> set (dcols d)" by (rule map_of_SomeD)
  with assms(1) have "length vs = length (dindex d)"
    by (auto simp add: wf_df_def list_all_iff)
  with vs show ?thesis by (simp add: column_def)
qed

lemma collect_all_right: "collect (map (\<lambda>x. Inr (g x)) xs) = Inr (map g xs)"
  by (induction xs) simp_all

lemma getattr_plain:
  assumes "own_attr ext d name = None" and "name \<in> set (columns d)"
  shows "getattr ext d name = Inr (Column (column d name))"
  using assms by (simp add: getattr_def)

lemma column_mask_plain:
  assumes "\<forall>col \<in> set (columns d). own_attr ext d col = None"
  shows "map (column_mask ext t d) (columns d)
           = map (\<lambda>col. Inr (contains_mask (py_str ext) t (column d col))) (columns d)"
  using assms by (simp add: column_mask_def getattr_def)

lemma substring_search_semantics:
  assumes "wf_df d" and "dcols d \<noteq> []"
    and "\<forall>col \<in> set (columns d). own_attr ext d col = None"
  shows "\<exists>m. substring_search ext t d = Inr (Computed (select_rows d m))
     \<and> length (svalues m) = length (dindex d)
     \<and> (\<forall>i<length (dindex d). svalues m ! i \<longleftrightarrow>
          (\<exists>col \<in> set (columns d). str_contains (py_str ext (svalues (column d col) ! i)) t))"
proof -
  let ?n = "length (dindex d)"
  let ?mk = "\<lambda>col. contains_mask (py_str ext) t (column d col)"
  from assms(2) obtain c cs where cols: "columns d = c # cs"
    by (cases "dcols d") (auto simp add: columns_def)
  have len: "\<forall>m \<in> set (?mk c # map ?mk cs). length (svalues m) = ?n"
    using column_length [OF assms(1)] cols by (auto simp add: contains_mask_def)
  let ?m = "foldl series_or (?mk c) (map ?mk cs)"
  note f = svalues_foldl_or [OF len]
  have "collect (map (column_mask ext t d) (columns d)) = Inr (map ?mk (columns d))"
    unfolding column_mask_plain [OF assms(3)] by (rule collect_all_right)
  then have s: "substring_search ext t d = Inr (Computed (select_rows d ?m))"
    by (simp add: substring_search_def reduce_def cols)
  have "\<forall>i<?n. svalues ?m ! i \<longleftrightarrow>
          (\<exists>col \<in> set (columns d). str_contains (py_str ext (svalues (column d col) ! i)) t)"
  proof (intro allI impI)
    fix i assume i: "i < ?n"
    have "svalues ?m ! i \<longleftrightarrow> (\<exists>m \<in> set (?mk c # map ?mk cs). svalues m ! i)"
      using f i by blast
    also have "\<dots> \<longleftrightarrow> (\<exists>col \<in> set (c # cs). svalues (?mk col) ! i)"
      by auto
    also have "\<dots> \<longleftrightarrow> (\<exists>col \<in> set (c # cs). str_contains (py_str ext (svalues (column d col) ! i)) t)"
    proof -
      have "\<And>col. col \<in> set (c # cs) \<Longrightarrow>
              svalues (?mk col) ! i = str_contains (py_str ext (svalues (column d col) ! i)) t"
        using column_length [OF assms(1)] cols i by (simp add: contains_mask_def)
      then show ?thesis by blast
    qed
    finally show "svalues ?m ! i \<longleftrightarrow>
          (\<exists>col \<in> set (columns d). str_contains (py_str ext (svalues (column d col) ! i)) t)"
      by (simp only: cols)
  qed
  with s f show ?thesis by blast
qed

lemma filter_df_eval_raises:
  assumes "filter_property tv = Some t" and "strip t \<notin> set (columns d)"
    and "py_eval ext t d = Inl e"
  shows "filter_df ext tv d = substring_search ext t d"
  using assms by (simp add: filter_df_def compile_filter_def)

lemma substring_fallback:
  assumes "filter_property tv = Some t" and "strip t \<notin> set (columns d)"
    and "py_eval ext t d = Inl e" and "wf_df d" and "dcols d \<noteq> []"
    and "\<forall>col \<in> set (columns d). own_attr ext d col = None"
  shows "\<exists>m. filter_df ext tv d = Inr (Computed (select_rows d m))
     \<and> length (svalues m) = length (dindex d)
     \<and> (\<forall>i<length (dindex d). svalues m ! i \<longleftrightarrow>
          (\<exists>col \<in> set (columns d). str_contains (py_str ext (svalues (column d col) ! i)) t))"
  unfolding filter_df_eval_raises [OF assms(1,2,3)]
  using assms(4,5,6) by (rule substring_search_semantics)

text \<open>
  C2. The claim: when the evaluation of a filter text that is not empty raises, the
  result of the filter is the substring search (a row is kept exactly when the text
  occurs in the string of one of its cells), and the search itself never raises, for
  every data source. For a source that has a column, none of them named like an
  attribute of the frame, this holds (\<open>substring_fallback\<close>, with \<open>str_contains_iff\<close>
  for what containment is). The search folds the masks of the columns with
  \<^verbatim>\<open>functools.reduce\<close> and no initial value: for a source without columns the list of
  masks is empty and \<^verbatim>\<open>reduce\<close> raises a TypeError, inside the \<^verbatim>\<open>except\<close> branch, so
  the error leaves the filter. Here the filter is evaluated on a source with two rows
  and no column, for the text \<^verbatim>\<open>ann\<close>, which does not evaluate.
\<close>

theorem substring_fallback_no_columns:
  "py_eval ext_nameerror ''ann'' df_no_columns = Inl NameError
   \<and> filter_df ext_nameerror (with_filter_text ''ann'' (TableView_init df_no_columns)) df_no_columns
       = Inl TypeError"
  by (simp add: filter_df_def compile_filter_def filter_property_def with_filter_text_def
        TableView_init_def ext_nameerror_def df_no_columns_def columns_def substring_search_def
        reduce_def strip_def py_isspace_def)

lemma column_name_filter:
  assumes "filter_property tv = Some t" and "strip t \<in> set (columns d)"
    and "own_attr ext d (strip t) = None"
  shows "compile_filter ext (Some t) d = Inr (Column (column d (strip t)))
    \<and> (\<exists>vs. (strip t, vs) \<in> set (dcols d)
          \<and> filter_df ext tv d = Inr (Computed \<lparr>dindex = dindex d, dcols = [(strip t, vs)]\<rparr>))"
proof -
  from assms(2) obtain vs where vs: "map_of (dcols d) (strip t) = Some vs"
    by (metis columns_def map_of_eq_None_iff not_Some_eq set_map)
  then have "(strip t, vs) \<in> set (dcols d)" by (rule map_of_SomeD)
  moreover have c: "compile_filter ext (Some t) d = Inr (Column (column d (strip t)))"
    using assms(2,3) by (simp add: compile_filter_def getattr_def)
  moreover have "filter_df ext tv d = Inr (Computed \<lparr>dindex = dindex d, dcols = [(strip t, vs)]\<rparr>)"
    using assms(1) c vs by (simp add: filter_df_def to_frame_def column_def)
  ultimately show ?thesis by blast
qed

lemma column_name_filter_example:
  "filter_df ext_nameerror (with_filter_text '' Age '' (TableView_init df_example)) df_example
     = Inr (Computed \<lparr>dindex = [0, 1, 2], dcols = [(''Age'', [''31'', ''27'', ''45''])]\<rparr>)"
  by (simp add: filter_df_def compile_filter_def filter_property_def with_filter_text_def
        TableView_init_def ext_nameerror_def df_example_def columns_def strip_def py_isspace_def
        getattr_def column_def to_frame_def)

text \<open>
  C5. The claim: when the filter text without the white space around it is the name of
  a column of the source, the filter returns the one-column view of that column. The
  code takes the column with \<^verbatim>\<open>getattr(df, name)\<close> ("If it's a column, just return the
  series"), and for a name that the frame object has as an attribute of its own Python
  answers with that attribute, not with the column. For every other column name the
  claim holds (\<open>column_name_filter\<close>). Here the source has the columns \<^verbatim>\<open>Name\<close> and
  \<^verbatim>\<open>count\<close> and the filter text is \<^verbatim>\<open>count\<close>: \<^verbatim>\<open>getattr\<close> answers with the method
  \<^verbatim>\<open>DataFrame.count\<close>, which has no \<^verbatim>\<open>to_frame\<close>; the AttributeError is caught, and
  the substring search takes \<^verbatim>\<open>getattr(df, col)\<close> for each column and meets the method
  again, whose missing \<^verbatim>\<open>map\<close> is an AttributeError that leaves the filter.
\<close>

theorem column_name_shadowed:
  "strip ''count'' = ''count''
   \<and> ''count'' \<in> set (columns df_count)
   \<and> getattr ext_count df_count ''count'' = Inr Object
   \<and> compile_filter ext_count (Some ''count'') df_count = Inr Object
   \<and> filter_df ext_count (with_filter_text ''count'' (TableView_init df_count)) df_count
       = Inl AttributeError"
  by (simp add: filter_df_def compile_filter_def filter_property_def with_filter_text_def
        TableView_init_def ext_count_def ext_nameerror_def df_count_def columns_def strip_def
        py_isspace_def getattr_def substring_search_def column_mask_def)

text \<open>
  C4. The spec says that a column value yielded by the evaluation is wrapped into a
  one-column view. The code does not wrap what the evaluation yields: it indexes the
  frame by it (\<^verbatim>\<open>df[evaluated]\<close>), and wraps what the compiled filter returns when that
  is a column value. So, for the filter text \<open>t\<close> of the view: when the compiled filter
  returns a column value, the filter returns the one-column frame of that value; this is
  so when \<open>t\<close> is not the name of a column and evaluates to the label of a column, and
  the frame is then the one-column frame of that column; and when \<open>t\<close> evaluates to a
  column value, the compiled filter is what the data source answers when it is indexed
  by that value, and a frame that it answers with is returned as it is.
\<close>

theorem compiled_column_wrapped:
  assumes "filter_property tv = Some t"
  shows "(compile_filter ext (Some t) d = Inr (Column s)
            \<longrightarrow> filter_df ext tv d = Inr (Computed (to_frame s)))
     \<and> (strip t \<notin> set (columns d) \<and> py_eval ext t d = Inr (Label l) \<and> l \<in> set (columns d)
            \<longrightarrow> filter_df ext tv d = Inr (Computed (to_frame (column d l))))
     \<and> (strip t \<notin> set (columns d) \<and> py_eval ext t d = Inr (ColumnValue s)
            \<longrightarrow> compile_filter ext (Some t) d = index_other ext d (ColumnValue s))
     \<and> (strip t \<notin> set (columns d) \<and> py_eval ext t d = Inr (ColumnValue s)
          \<and> index_other ext d (ColumnValue s) = Inr (Frame f)
            \<longrightarrow> filter_df ext tv d = Inr f)"
  using assms by (simp add: filter_df_def compile_filter_def getitem_def)

theorem compiled_column_wrapped_witness:
  "filter_property (with_filter_text (QUOTE # ''Age'' @ [QUOTE]) (TableView_init df_example))
     = Some (QUOTE # ''Age'' @ [QUOTE])
   \<and> strip (QUOTE # ''Age'' @ [QUOTE]) \<notin> set (columns df_example)
   \<and> py_eval ext_label (QUOTE # ''Age'' @ [QUOTE]) df_example = Inr (Label ''Age'')
   \<and> ''Age'' \<in> set (columns df_example)
   \<and> filter_df ext_label (with_filter_text (QUOTE # ''Age'' @ [QUOTE]) (TableView_init df_example))
        df_example
       = Inr (Computed \<lparr>dindex = [0, 1, 2], dcols = [(''Age'', [''31'', ''27'', ''45''])]\<rparr>)"
proof -
  let ?t = "QUOTE # ''Age'' @ [QUOTE]"
  let ?tv = "with_filter_text ?t (TableView_init df_example)"
  have p: "filter_property ?tv = Some ?t"
    by (simp add: filter_property_def with_filter_text_def TableView_init_def)
  have n: "strip ?t \<notin> set (columns df_example)"
    by (simp add: strip_def py_isspace_def columns_def df_example_def QUOTE_def)
  have e: "py_eval ext_label ?t df_example = Inr (Label ''Age'')"
    by (simp add: ext_label_def)
  have c: "''Age'' \<in> set (columns df_example)"
    by (simp add: columns_def df_example_def)
  have "filter_df ext_label ?tv df_example = Inr (Computed (to_frame (column df_example ''Age'')))"
    using compiled_column_wrapped [OF p, of ext_label df_example _ "''Age''"] n e c by blast
  then have f: "filter_df ext_label ?tv df_example
                  = Inr (Computed \<lparr>dindex = [0, 1, 2], dcols = [(''Age'', [''31'', ''27'', ''45''])]\<rparr>)"
    by (simp add: to_frame_def column_def df_example_def)
  show ?thesis by (intro conjI) (rule p n e c f)+
qed

text \<open>
  C4, as the spec states it, fails for the text \<^verbatim>\<open>Name + Name\<close>: it evaluates to a
  column value, the names written twice; the frame is indexed by that column, which
  builds a lazy frame and raises nothing, so the filter returns that frame as it is, not
  the one-column frame of the evaluated column. The entries of the column are not labels
  of the frame: when the page is cut the rows are computed, outside the \<^verbatim>\<open>try\<close>, and
  the KeyError leaves \<^verbatim>\<open>__rich_console__\<close>.
\<close>

theorem evaluated_column_not_wrapped:
  "strip ''Name + Name'' \<notin> set (columns df_example)
   \<and> py_eval ext_sum ''Name + Name'' df_example = Inr (ColumnValue name_twice)
   \<and> filter_df ext_sum (with_filter_text ''Name + Name'' (TableView_init df_example)) df_example
       = Inr (Failing [''Name'', ''Age''] KeyError)
   \<and> filter_df ext_sum (with_filter_text ''Name + Name'' (TableView_init df_example)) df_example
       \<noteq> Inr (Computed (to_frame name_twice))
   \<and> snd (rich_console ext_sum options_example
             (with_filter_text ''Name + Name'' (TableView_init df_example)))
       = Inl KeyError"
  by (simp add: filter_df_def compile_filter_def filter_property_def with_filter_text_def
        TableView_init_def ext_sum_def ext_nameerror_def df_example_def columns_def
        strip_def py_isspace_def getitem_def column_def name_twice_def
        rich_console_def filtered_view_def body_height_def options_example_def Let_def
        lazy_iloc_columns_from_def slice_from_def column_startat_def startat_def
        lazy_page_def islice_def)

section \<open>The renderer\<close>

lemma filter_df_last_page_size:
  "filter_df ext (tv\<lparr>tv_last_page_size := h\<rparr>) d = filter_df ext tv d"
  by (simp add: filter_df_def filter_property_def)

lemma filtered_view_last_page_size:
  "filtered_view ext (tv\<lparr>tv_last_page_size := h\<rparr>) = filtered_view ext tv"
proof -
  have "column_startat (tv\<lparr>tv_last_page_size := h\<rparr>) = column_startat tv"
    by (simp add: column_startat_def)
  moreover have "tv_df (tv\<lparr>tv_last_page_size := h\<rparr>) = tv_df tv"
    by simp
  ultimately show ?thesis
    unfolding filtered_view_def filter_df_last_page_size by (simp only:)
qed

lemma length_itertuples: "length (itertuples d) = length (dindex d)"
  by (simp add: itertuples_def)

lemma islice_beyond:
  assumes "int (length xs) \<le> start" and "0 \<le> stop"
  shows "islice xs start stop = Inr []"
  using assms by (simp add: islice_def)

lemma fit_page_empty: "fit_page ext width names [] = (names, [])"
  by (simp add: fit_page_def column_fit_def zip_star_def accumulate_def)

lemma rich_console_df: "tv_df (fst (rich_console ext options tv)) = tv_df tv"
  by (simp add: rich_console_def Let_def)

lemma rich_console_beyond:
  assumes "filtered_view ext tv = Inr (Computed fv)" and "len fv \<le> startat tv"
    and "0 \<le> startat tv + body_height options tv"
  shows "snd (rich_console ext options tv)
         = Inr \<lparr>fr_filter_shown = (0 < length (cap_value (tv_filter tv)) \<or> cap_editing (tv_filter tv)),
                fr_column_names = '' '' # columns fv, fr_rows = [], fr_total_rows = len fv\<rparr>"
proof -
  let ?tv1 = "tv\<lparr>tv_last_page_size := body_height options tv\<rparr>"
  have s: "startat ?tv1 = startat tv" by (simp add: startat_def)
  have i: "islice (itertuples fv) (startat tv) (startat tv + body_height options tv) = Inr []"
    using assms(2,3) by (intro islice_beyond) (simp_all add: length_itertuples len_def)
  show ?thesis
    by (simp add: rich_console_def Let_def filtered_view_last_page_size assms(1) s i
          fit_page_empty lazy_page_def lazy_len_def lazy_columns_def)
qed

lemma rich_console_negative_stop:
  assumes "filtered_view ext tv = Inr f" and "startat tv + body_height options tv < 0"
  shows "snd (rich_console ext options tv) = Inl ValueError"
proof -
  have "startat (tv\<lparr>tv_last_page_size := body_height options tv\<rparr>) = startat tv"
    by (simp add: startat_def)
  then show ?thesis
    using assms(2)
    by (cases f)
       (simp_all add: rich_console_def Let_def filtered_view_last_page_size assms(1)
          lazy_page_def islice_def)
qed

text \<open>
  The two setters clamp against the row count and the column count of the source frame
  \<^verbatim>\<open>self.df\<close>, whatever the filter of the view is, and rendering leaves \<^verbatim>\<open>self.df\<close>
  as it is: the filtered view never takes its place. So there are views with a filter
  whose stored row offset is at least the row count of the filtered view. When the
  stored offset is at least the row count of the filtered view and the stop index
  \<^verbatim>\<open>startat + height\<close> of the page is not negative, the page that is rendered has no
  row, and the frame is the header of the filtered view and its row count.
\<close>

lemma clamp_reads_source:
  "startat (startat_setter v (tv\<lparr>tv_filter := f\<rparr>)) = min (len (tv_df tv) - 1) (max 0 v)
   \<and> column_startat (column_startat_setter v (tv\<lparr>tv_filter := f\<rparr>))
       = min (int (length (columns (tv_df tv))) - 1) (max 0 v)
   \<and> tv_df (fst (rich_console ext options tv)) = tv_df tv
   \<and> (\<exists>ext1 tv1 fv1. filter_property tv1 \<noteq> None
         \<and> filtered_view ext1 (startat_setter 2 tv1) = Inr (Computed fv1)
         \<and> len (fv1 :: string dataframe) \<le> startat (startat_setter 2 tv1))
   \<and> (filtered_view ext tv = Inr (Computed fv) \<and> len fv \<le> startat tv
        \<and> 0 \<le> startat tv + body_height options tv
      \<longrightarrow> snd (rich_console ext options tv)
            = Inr \<lparr>fr_filter_shown = (0 < length (cap_value (tv_filter tv)) \<or> cap_editing (tv_filter tv)),
                   fr_column_names = '' '' # columns fv, fr_rows = [], fr_total_rows = len fv\<rparr>)"
proof (intro conjI impI)
  show "startat (startat_setter v (tv\<lparr>tv_filter := f\<rparr>)) = min (len (tv_df tv) - 1) (max 0 v)"
    by (simp add: startat_setter_def startat_def)
  show "column_startat (column_startat_setter v (tv\<lparr>tv_filter := f\<rparr>))
       = min (int (length (columns (tv_df tv))) - 1) (max 0 v)"
    by (simp add: column_startat_setter_def column_startat_def)
  show "tv_df (fst (rich_console ext options tv)) = tv_df tv"
    by (rule rich_console_df)
  let ?tv1 = "with_filter_text ''zzz'' (TableView_init df_example)"
  have "filter_property ?tv1 \<noteq> None"
    by (simp add: filter_property_def with_filter_text_def TableView_init_def)
  moreover have "filtered_view ext_nameerror (startat_setter 2 ?tv1)
                   = Inr (Computed \<lparr>dindex = [], dcols = [(''Name'', []), (''Age'', [])]\<rparr>)"
    by (simp add: filtered_view_def filter_df_def compile_filter_def filter_property_def
          with_filter_text_def TableView_init_def ext_nameerror_def df_example_def columns_def
          substring_search_def reduce_def strip_def py_isspace_def column_def getattr_def
          column_mask_def contains_mask_def series_or_def select_rows_def pick_def
          startat_setter_def lazy_iloc_columns_from_def iloc_columns_from_def slice_from_def
          column_startat_def)
  moreover have "len \<lparr>dindex = [], dcols = [(''Name'', [] :: string list), (''Age'', [])]\<rparr>
                   \<le> startat (startat_setter 2 ?tv1)"
    by (simp add: len_def startat_def startat_setter_def with_filter_text_def TableView_init_def
          df_example_def)
  ultimately show "\<exists>ext1 tv1 fv1. filter_property tv1 \<noteq> None
         \<and> filtered_view ext1 (startat_setter 2 tv1) = Inr (Computed fv1)
         \<and> len (fv1 :: string dataframe) \<le> startat (startat_setter 2 tv1)"
    by blast
next
  assume "filtered_view ext tv = Inr (Computed fv) \<and> len fv \<le> startat tv
        \<and> 0 \<le> startat tv + body_height options tv"
  then show "snd (rich_console ext options tv)
            = Inr \<lparr>fr_filter_shown = (0 < length (cap_value (tv_filter tv)) \<or> cap_editing (tv_filter tv)),
                   fr_column_names = '' '' # columns fv, fr_rows = [], fr_total_rows = len fv\<rparr>"
    using rich_console_beyond by blast
qed

lemma tv_filtered_facts:
  "startat tv_filtered = 2"
  "filter_property tv_filtered = Some ''zzz''"
  "cap_value (tv_filter tv_filtered) \<noteq> []"
  "filtered_view ext_nameerror tv_filtered = Inr (Computed df_no_rows)"
  by (simp_all add: tv_filtered_def startat_def filtered_view_def filter_df_def compile_filter_def
        filter_property_def with_filter_text_def TableView_init_def ext_nameerror_def
        df_example_def columns_def substring_search_def reduce_def strip_def py_isspace_def
        column_def getattr_def column_mask_def contains_mask_def series_or_def select_rows_def
        pick_def startat_setter_def lazy_iloc_columns_from_def iloc_columns_from_def
        slice_from_def column_startat_def df_no_rows_def len_def)

lemma empty_page_example:
  "snd (rich_console ext_nameerror options_example tv_filtered)
     = Inr \<lparr>fr_filter_shown = True, fr_column_names = ['' '', ''Name'', ''Age''],
            fr_rows = [], fr_total_rows = 0\<rparr>"
proof -
  have "snd (rich_console ext_nameerror options_example tv_filtered)
       = Inr \<lparr>fr_filter_shown = (0 < length (cap_value (tv_filter tv_filtered)) \<or> cap_editing (tv_filter tv_filtered)),
              fr_column_names = '' '' # columns df_no_rows, fr_rows = [],
              fr_total_rows = len df_no_rows\<rparr>"
    by (rule rich_console_beyond [OF tv_filtered_facts(4)])
       (simp_all add: tv_filtered_facts len_def df_no_rows_def body_height_def
          options_example_def)
  then show ?thesis
    using tv_filtered_facts(3) by (simp add: columns_def df_no_rows_def len_def)
qed

text \<open>
  C10. The claim: the setters clamp against the counts of the source and not of the
  filtered view, so the stored row offset may be at least the row count of the filtered
  view, and rendering then materializes an empty page. The first two parts hold, and so
  does the third when the stop index \<^verbatim>\<open>startat + height\<close> of the page is not negative
  (\<open>clamp_reads_source\<close>, \<open>empty_page_example\<close>). The height of the page is the height
  of the viewport less 7, and less 1 more for the filter line, with no lower bound: in
  a viewport of 5 lines it is \<open>-3\<close>, and with the stored offset 2 the stop index is
  \<open>-1\<close>, which \<^verbatim>\<open>islice\<close> refuses with a ValueError (\<open>rich_console_negative_stop\<close>).
  Here the view has the filter \<^verbatim>\<open>zzz\<close>, which no cell contains, and the stored offset
  2, in a viewport of 5 lines: no page is materialized, the ValueError leaves
  \<^verbatim>\<open>__rich_console__\<close>.
\<close>

theorem small_viewport_raises:
  "filter_property tv_filtered = Some ''zzz''
   \<and> startat tv_filtered = 2
   \<and> filtered_view ext_nameerror tv_filtered = Inr (Computed df_no_rows)
   \<and> len df_no_rows \<le> startat tv_filtered
   \<and> body_height options_low tv_filtered = - 3
   \<and> snd (rich_console ext_nameerror options_low tv_filtered) = Inl ValueError"
proof -
  have l: "len df_no_rows \<le> startat tv_filtered"
    unfolding tv_filtered_facts(1) by (simp add: len_def df_no_rows_def)
  have h: "body_height options_low tv_filtered = - 3"
    using tv_filtered_facts(3) by (simp add: body_height_def options_low_def)
  have "startat tv_filtered + body_height options_low tv_filtered < 0"
    unfolding h tv_filtered_facts(1) by simp
  then have r: "snd (rich_console ext_nameerror options_low tv_filtered) = Inl ValueError"
    by (rule rich_console_negative_stop [OF tv_filtered_facts(4)])
  show ?thesis by (intro conjI) (rule tv_filtered_facts(2) tv_filtered_facts(1) tv_filtered_facts(4) l h r)+
qed

section \<open>Column fit\<close>

lemma length_accumulate_from: "length (accumulate_from s xs) = length xs"
  by (induction xs arbitrary: s) simp_all

lemma nth_accumulate_from:
  "i < length xs \<Longrightarrow> accumulate_from s xs ! i = s + sum_list (take (Suc i) xs)"
proof (induction xs arbitrary: s i)
  case Nil
  then show ?case by simp
next
  case (Cons x xs)
  then show ?case by (cases i) simp_all
qed

lemma length_accumulate: "length (accumulate xs) = length xs"
  by (simp add: accumulate_def length_accumulate_from)

lemma nth_accumulate: "i < length xs \<Longrightarrow> accumulate xs ! i = sum_list (take (Suc i) xs)"
  by (simp add: accumulate_def nth_accumulate_from)

lemma first_index:
  assumes "filter P [0..<n] = c # rest"
  shows "c < n \<and> P c \<and> (\<forall>i<c. \<not> P i)"
proof -
  from assms obtain us vs where split: "[0..<n] = us @ c # vs"
    and us: "\<forall>u \<in> set us. \<not> P u" and c: "P c"
    by (auto simp add: filter_eq_Cons_iff)
  have "c \<in> set [0..<n]" unfolding split by simp
  then have cn: "c < n" by simp
  have lt: "length us < n"
    using arg_cong [OF split, of length] by simp
  have "[0..<n] ! length us = c" unfolding split by simp
  with lt have lc: "length us = c" by simp
  have "take c [0..<n] = us" unfolding split using lc by simp
  then have "us = [0..<c]" using cn by (simp add: take_upt)
  with us have "\<forall>i<c. \<not> P i" by simp
  with cn c show ?thesis by blast
qed

lemma column_fit_shape:
  fixes width :: int and maxima :: "int list"
  defines "tw \<equiv> accumulate (map (\<lambda>w. w + 1) maxima)"
  defines "cr \<equiv> filter (\<lambda>i. width < tw ! i) [0..<length tw]"
  obtains (all) "cr = []" and "column_fit width maxima names paged = (names, paged)"
  | (cut) c rest m where "cr = c # rest"
      and "column_fit width maxima names paged = (take (nat m) names, map (take (nat m)) paged)"
      and "m = max (int c) 1 \<or> (m = max (int c) 1 + 1 \<and> 30 \<le> width - tw ! nat (max (int c) 1 - 1))"
proof (cases cr)
  case Nil
  then have "column_fit width maxima names paged = (names, paged)"
    unfolding column_fit_def Let_def cr_def tw_def by simp
  with Nil show ?thesis by (rule all)
next
  case (Cons c rest)
  define mc where "mc = max (int c) 1"
  define aw where "aw = width - tw ! nat (mc - 1)"
  define grow where "grow \<longleftrightarrow> mc < int (length maxima)
                        \<and> 30 \<le> aw \<and> 4 \<le> real_of_int aw / real_of_int mc"
  have hd: "hd cr = c" and ne: "cr \<noteq> []" using Cons by simp_all
  have fit: "column_fit width maxima names paged
        = (take (nat (if grow then mc + 1 else mc)) names,
           map (take (nat (if grow then mc + 1 else mc))) paged)"
    unfolding column_fit_def Let_def
    unfolding tw_def [symmetric] unfolding cr_def [symmetric]
    unfolding hd mc_def [symmetric] unfolding aw_def [symmetric]
    using ne by (cases grow) (auto simp add: grow_def)
  have "(if grow then mc + 1 else mc) = max (int c) 1
        \<or> ((if grow then mc + 1 else mc) = max (int c) 1 + 1
            \<and> 30 \<le> width - tw ! nat (max (int c) 1 - 1))"
    by (cases grow) (simp_all add: grow_def mc_def aw_def)
  with Cons fit show ?thesis by (rule cut)
qed

lemma column_fit_count:
  assumes "names \<noteq> []"
  shows "1 \<le> length (fst (column_fit width maxima names paged))
     \<and> length (fst (column_fit width maxima names paged)) \<le> length names"
proof -
  have n: "1 \<le> length names" using assms by (cases names) simp_all
  show ?thesis
  proof (cases width maxima names paged rule: column_fit_shape)
    case all
    with n show ?thesis by simp
  next
    case (cut c rest m)
    then have "1 \<le> m" by auto
    then have "1 \<le> nat m" by simp
    with n cut(2) show ?thesis by simp
  qed
qed

lemma column_fit_prefix:
  assumes "length maxima = length names"
    and "Suc i < length (fst (column_fit width maxima names paged))"
  shows "accumulate (map (\<lambda>w. w + 1) maxima) ! i \<le> width"
proof (cases width maxima names paged rule: column_fit_shape)
  case all
  then have "\<forall>j<length (accumulate (map (\<lambda>w. w + 1) maxima)).
               \<not> width < accumulate (map (\<lambda>w. w + 1) maxima) ! j"
    by (auto simp add: filter_empty_conv)
  with all(2) assms show ?thesis by (simp add: length_accumulate not_less)
next
  case (cut c rest m)
  from first_index [OF cut(1)]
  have before: "\<forall>j<c. \<not> width < accumulate (map (\<lambda>w. w + 1) maxima) ! j"
    by blast
  from assms(2) have "Suc i < nat m"
    unfolding cut(2) by simp
  then have im: "int (Suc i) < m" by linarith
  show ?thesis
  proof (cases "i < c")
    case True
    with before show ?thesis by (simp add: not_less)
  next
    case False
    with im cut(3) have "m = max (int c) 1 + 1"
      and "30 \<le> width - accumulate (map (\<lambda>w. w + 1) maxima) ! nat (max (int c) 1 - 1)"
      by auto
    moreover with False im have "nat (max (int c) 1 - 1) = i" by auto
    ultimately show ?thesis by simp
  qed
qed

lemma foldr_min_length:
  "\<forall>row \<in> set rest. length row = n \<Longrightarrow> foldr (\<lambda>row m. min (length row) m) rest n = n"
  by (induction rest) simp_all

lemma zip_star_rectangular:
  assumes "paged \<noteq> []" and "\<forall>row \<in> set paged. length row = n"
  shows "zip_star paged = map (page_column paged) [0..<n]"
proof -
  from assms(1) obtain r rest where p: "paged = r # rest" by (cases paged) auto
  with assms(2) have "length r = n" and "\<forall>row \<in> set rest. length row = n" by simp_all
  then have "foldr (\<lambda>row m. min (length row) m) rest (length r) = n"
    using foldr_min_length by blast
  then show ?thesis
    unfolding p zip_star_def page_column_def by simp
qed

lemma zip_map_upt:
  "zip names (map f [0..<length names]) = map (\<lambda>j. (names ! j, f j)) [0..<length names]"
  by (rule nth_equalityI) simp_all

lemma total_width_rectangular:
  assumes "paged \<noteq> []" and "\<forall>row \<in> set paged. length row = length names" and "i < length names"
  shows "accumulate (map (\<lambda>w. w + 1) (map (measure_column ext) (zip names (zip_star paged)))) ! i
         = cumulative_width ext names paged i"
proof -
  let ?g = "\<lambda>j. measure_column ext (names ! j, page_column paged j) + 1"
  have "map (\<lambda>w. w + 1) (map (measure_column ext) (zip names (zip_star paged)))
          = map ?g [0..<length names]"
    by (simp add: zip_star_rectangular [OF assms(1,2)] zip_map_upt)
  moreover have "accumulate (map ?g [0..<length names]) ! i
                   = sum_list (take (Suc i) (map ?g [0..<length names]))"
    using assms(3) by (simp add: nth_accumulate)
  moreover have "take (Suc i) (map ?g [0..<length names]) = map ?g [0..<Suc i]"
    using assms(3) by (simp add: take_map take_upt del: upt_Suc)
  ultimately show ?thesis by (simp add: cumulative_width_def del: upt_Suc)
qed

lemma page_rectangular:
  assumes "lazy_page f start stop = Inr paged"
  shows "\<forall>row \<in> set paged. length row = length ('' '' # lazy_columns f)"
proof (cases f)
  case (Computed d)
  have "\<forall>row \<in> set (itertuples d). length row = length ('' '' # columns d)"
    by (simp add: itertuples_def columns_def)
  moreover from assms Computed have "set paged \<subseteq> set (itertuples d)"
    by (auto simp add: lazy_page_def islice_def split: if_splits
          dest: in_set_takeD in_set_dropD)
  ultimately show ?thesis using Computed by (auto simp add: lazy_columns_def)
next
  case (Failing cols e)
  with assms have "paged = []"
    by (auto simp add: lazy_page_def islice_def split: if_splits)
  then show ?thesis by simp
qed

text \<open>
  For every width and every page cut from a view, at least one and at most all of the
  columns (the row label counted as the first) are admitted. When the page has a row,
  the cumulative width of the admitted columns but the last is within the width: the
  property of the spec holds. The widths are measured on the columns of the page, which
  \<^verbatim>\<open>zip(*paged)\<close> builds from its rows.
\<close>

lemma column_fit_nonempty_page:
  assumes "lazy_page f start stop = Inr paged"
  shows "1 \<le> length (fst (fit_page ext width ('' '' # lazy_columns f) paged))
   \<and> length (fst (fit_page ext width ('' '' # lazy_columns f) paged))
       \<le> length ('' '' # lazy_columns f)
   \<and> (paged \<noteq> [] \<longrightarrow> column_fit_claim ext width ('' '' # lazy_columns f) paged)"
proof -
  let ?names = "'' '' # lazy_columns f"
  let ?ms = "map (measure_column ext) (zip ?names (zip_star paged))"
  note rect = page_rectangular [OF assms]
  have count: "1 \<le> length (fst (fit_page ext width ?names paged))
               \<and> length (fst (fit_page ext width ?names paged)) \<le> length ?names"
    unfolding fit_page_def by (rule column_fit_count) simp
  have "column_fit_claim ext width ?names paged" if ne: "paged \<noteq> []"
  proof -
    have lm: "length ?ms = length ?names"
      by (simp add: zip_star_rectangular [OF ne rect])
    have "cumulative_width ext ?names paged i \<le> width"
      if i: "Suc i < length (fst (fit_page ext width ?names paged))" for i
    proof -
      from i count have "i < length ?names" by linarith
      from total_width_rectangular [OF ne rect this, of ext]
        column_fit_prefix [OF lm, of i width paged] i
      show ?thesis by (simp add: fit_page_def)
    qed
    with count show ?thesis
      unfolding column_fit_claim_def Let_def by blast
  qed
  with count show ?thesis by blast
qed

lemma column_fit_example:
  "lazy_page (Computed df_example) 0 2 = Inr page_example
   \<and> fst (fit_page ext_nameerror 5 ('' '' # columns df_example) page_example) = ['' '']
   \<and> fst (fit_page ext_nameerror 7 ('' '' # columns df_example) page_example) = ['' '', ''Name'']
   \<and> column_fit_claim ext_nameerror 7 ('' '' # columns df_example) page_example"
proof -
  have p: "lazy_page (Computed df_example) 0 2 = Inr page_example"
    by (simp add: lazy_page_def islice_def itertuples_def df_example_def page_example_def upt_rec)
  have a: "page_example \<noteq> []" by (simp add: page_example_def)
  have n: "'' '' # columns df_example = ['' '', ''Name'', ''Age'']"
    by (simp add: columns_def df_example_def)
  have c: "fst (fit_page ext_nameerror 5 ('' '' # columns df_example) page_example) = ['' '']"
    unfolding n
    by (simp add: fit_page_def column_fit_def zip_star_def page_example_def ext_nameerror_def
          accumulate_def Let_def)
  have d: "fst (fit_page ext_nameerror 7 ('' '' # columns df_example) page_example)
             = ['' '', ''Name'']"
    unfolding n
    by (simp add: fit_page_def column_fit_def zip_star_def page_example_def ext_nameerror_def
          accumulate_def Let_def)
  have e: "column_fit_claim ext_nameerror 7 ('' '' # columns df_example) page_example"
    using column_fit_nonempty_page [OF p, of ext_nameerror 7] a
    by (simp add: lazy_columns_def)
  show ?thesis by (intro conjI) (rule p c d e)+
qed

text \<open>
  C3. The claim: for every width and every page, between one and all columns are
  admitted, and the cumulative width of the admitted columns but the last is within the
  width of the viewport. The count holds for every page and the widths for every page
  that has a row (\<open>column_fit_nonempty_page\<close>). The code measures the columns that
  \<^verbatim>\<open>zip(column_names, zip(*paged))\<close> builds from the rows of the page ("computes the
  number of columns we can comfortable render in the space"): for a page without rows
  that is no column at all, nothing is measured, nothing is cut, and every column is
  admitted whatever the width. Here the view has the filter \<^verbatim>\<open>zzz\<close>, which no cell
  contains, in a viewport 7 wide, of which 5 are available: the three columns are
  admitted, and the first two, with headers of the widths 1 and 4 and their separators,
  are 7 wide.
\<close>

theorem empty_page_admits_all_columns:
  "snd (rich_console ext_nameerror options_narrow tv_filtered)
     = Inr \<lparr>fr_filter_shown = True, fr_column_names = ['' '', ''Name'', ''Age''],
            fr_rows = [], fr_total_rows = 0\<rparr>
   \<and> opt_max_width options_narrow - 2 = 5
   \<and> cumulative_width ext_nameerror ['' '', ''Name'', ''Age''] [] 1 = 7"
proof -
  have "snd (rich_console ext_nameerror options_narrow tv_filtered)
       = Inr \<lparr>fr_filter_shown = (0 < length (cap_value (tv_filter tv_filtered)) \<or> cap_editing (tv_filter tv_filtered)),
              fr_column_names = '' '' # columns df_no_rows, fr_rows = [],
              fr_total_rows = len df_no_rows\<rparr>"
    by (rule rich_console_beyond [OF tv_filtered_facts(4)])
       (simp_all add: tv_filtered_facts len_def df_no_rows_def body_height_def
          options_narrow_def)
  then have r: "snd (rich_console ext_nameerror options_narrow tv_filtered)
     = Inr \<lparr>fr_filter_shown = True, fr_column_names = ['' '', ''Name'', ''Age''],
            fr_rows = [], fr_total_rows = 0\<rparr>"
    using tv_filtered_facts(3) by (simp add: columns_def df_no_rows_def len_def)
  have w: "opt_max_width options_narrow - 2 = 5"
    by (simp add: options_narrow_def)
  have c: "cumulative_width ext_nameerror ['' '', ''Name'', ''Age''] [] 1 = 7"
    by (simp add: cumulative_width_def ext_nameerror_def page_column_def)
  show ?thesis by (intro conjI) (rule r w c)+
qed

end
